theory Spec2Isabelle
  imports Complex_Main
begin

section \<open>Numbers and strings of the host language\<close>

text \<open>
  The picker is TypeScript. Its numbers are modelled as \<^typ>\<open>int\<close>: every quantity of
  the code below is a count of milliseconds, minutes or days, far inside the range in
  which a double is exact. A \<open>Date\<close> is its time value, the milliseconds since
  1970-01-01T00:00:00Z; the clipping of time values beyond \<open>8.64e15\<close> is not modelled.
  An Invalid Date (time value \<open>NaN\<close>) is \<open>None\<close> where the code can produce one.
\<close>

definition digit_char :: "nat \<Rightarrow> char" where
  "digit_char n = ''0123456789'' ! n"

fun show_nat :: "nat \<Rightarrow> string" where
  "show_nat n = (if n < 10 then [digit_char n] else show_nat (n div 10) @ [digit_char (n mod 10)])"

declare show_nat.simps [simp del]

text \<open>\<open>String(n)\<close> of an integral number, as a template literal \<open>${n}\<close> prints it.\<close>

definition show_int :: "int \<Rightarrow> string" where
  "show_int i = (if i < 0 then CHR ''-'' # show_nat (nat (- i)) else show_nat (nat i))"

definition isDigit :: "char \<Rightarrow> bool" where
  "isDigit c = (c \<in> set ''0123456789'')"

text \<open>The value of a decimal digit: its position among the ten digits.\<close>

definition digit_val :: "char \<Rightarrow> nat" where
  "digit_val c = length (takeWhile (\<lambda>d. d \<noteq> c) ''0123456789'')"

definition parse_digits :: "string \<Rightarrow> nat" where
  "parse_digits s = foldl (\<lambda>a c. 10 * a + digit_val c) 0 s"

text \<open>
  \<open>Number(s)\<close> on the pieces of a time string: the empty string is \<open>0\<close>, a run of decimal
  digits is its value, and anything else is \<open>NaN\<close> (\<open>None\<close>). Signs, fractions, exponents,
  hexadecimal literals and surrounding white space, which \<open>Number\<close> also accepts, are
  outside the model.
\<close>

definition Number_js :: "string \<Rightarrow> int option" where
  "Number_js s = (if list_all isDigit s then Some (int (parse_digits s)) else None)"

text \<open>
  \<open>parseInt(s)\<close>: an optional sign and the longest prefix of decimal digits; \<open>NaN\<close> when
  there is no digit. Leading white space and a \<open>0x\<close> prefix are outside the model.
\<close>

definition parseInt_digits :: "string \<Rightarrow> int option" where
  "parseInt_digits s =
     (let ds = takeWhile isDigit s in if ds = [] then None else Some (int (parse_digits ds)))"

fun parseInt :: "string \<Rightarrow> int option" where
  "parseInt [] = None"
| "parseInt (c # cs) =
     (if c = CHR ''+'' then parseInt_digits cs
      else if c = CHR ''-'' then map_option uminus (parseInt_digits cs)
      else parseInt_digits (c # cs))"

text \<open>\<open>s.split(':')\<close>.\<close>

fun split_colon :: "string \<Rightarrow> string list" where
  "split_colon [] = [ [] ]"
| "split_colon (c # cs) =
     (if c = CHR '':'' then [] # split_colon cs
      else (case split_colon cs of [] \<Rightarrow> [ [c] ] | p # ps \<Rightarrow> (c # p) # ps))"

section \<open>Time values and the calendar (ECMA-262, Date objects)\<close>

text \<open>
  The \<open>Date\<close> methods the picker calls are the platform's. They are modelled after the
  abstract operations of ECMA-262: \<open>Day\<close>, \<open>TimeWithinDay\<close>, \<open>DayFromYear\<close>,
  \<open>YearFromTime\<close>, \<open>MonthFromTime\<close>, \<open>DateFromTime\<close>, \<open>WeekDay\<close>, \<open>MakeTime\<close>,
  \<open>MakeDay\<close>, \<open>MakeDate\<close>, \<open>LocalTime\<close> and \<open>UTC\<close>.
\<close>

definition msPerDay :: int where "msPerDay = 86400000"
definition msPerHour :: int where "msPerHour = 3600000"
definition msPerMinute :: int where "msPerMinute = 60000"
definition msPerSecond :: int where "msPerSecond = 1000"

definition Day :: "int \<Rightarrow> int" where
  "Day t = t div msPerDay"

definition TimeWithinDay :: "int \<Rightarrow> int" where
  "TimeWithinDay t = t mod msPerDay"

definition DaysInYear :: "int \<Rightarrow> int" where
  "DaysInYear y =
     (if y mod 4 \<noteq> 0 then 365 else if y mod 100 \<noteq> 0 then 366
      else if y mod 400 \<noteq> 0 then 365 else 366)"

definition DayFromYear :: "int \<Rightarrow> int" where
  "DayFromYear y =
     365 * (y - 1970) + (y - 1969) div 4 - (y - 1901) div 100 + (y - 1601) div 400"

text \<open>
  ECMA-262 takes as the year of a day the largest \<open>y\<close> with \<open>DayFromYear y \<le> day\<close>. The
  executable form estimates the year from the mean length of a Gregorian year and
  corrects the estimate by at most one; \<open>yearOfDay_bounds\<close> below shows that it is that
  largest year.
\<close>

definition yearOfDay :: "int \<Rightarrow> int" where
  "yearOfDay d =
     (let y = 1970 + (400 * d) div 146097
      in if DayFromYear (y + 1) \<le> d then y + 1
         else if DayFromYear y \<le> d then y else y - 1)"

definition YearFromTime :: "int \<Rightarrow> int" where
  "YearFromTime t = yearOfDay (Day t)"

definition leapDays :: "int \<Rightarrow> int" where
  "leapDays y = (if DaysInYear y = 366 then 1 else 0)"

definition InLeapYear :: "int \<Rightarrow> int" where
  "InLeapYear t = leapDays (YearFromTime t)"

definition DayWithinYear :: "int \<Rightarrow> int" where
  "DayWithinYear t = Day t - DayFromYear (YearFromTime t)"

text \<open>The day within the year on which month \<open>m\<close> (0 to 11) starts.\<close>

definition monthStart :: "int \<Rightarrow> int \<Rightarrow> int" where
  "monthStart m l =
     (if m = 0 then 0 else if m = 1 then 31 else if m = 2 then 59 + l
      else if m = 3 then 90 + l else if m = 4 then 120 + l else if m = 5 then 151 + l
      else if m = 6 then 181 + l else if m = 7 then 212 + l else if m = 8 then 243 + l
      else if m = 9 then 273 + l else if m = 10 then 304 + l else 334 + l)"

definition monthOfYearDay :: "int \<Rightarrow> int \<Rightarrow> int" where
  "monthOfYearDay d l =
     (if d < 31 then 0 else if d < 59 + l then 1 else if d < 90 + l then 2
      else if d < 120 + l then 3 else if d < 151 + l then 4 else if d < 181 + l then 5
      else if d < 212 + l then 6 else if d < 243 + l then 7 else if d < 273 + l then 8
      else if d < 304 + l then 9 else if d < 334 + l then 10 else 11)"

definition MonthFromTime :: "int \<Rightarrow> int" where
  "MonthFromTime t = monthOfYearDay (DayWithinYear t) (InLeapYear t)"

definition DateFromTime :: "int \<Rightarrow> int" where
  "DateFromTime t = DayWithinYear t - monthStart (MonthFromTime t) (InLeapYear t) + 1"

definition WeekDay :: "int \<Rightarrow> int" where
  "WeekDay t = (Day t + 4) mod 7"

definition HourFromTime :: "int \<Rightarrow> int" where
  "HourFromTime t = (t div msPerHour) mod 24"

definition MinFromTime :: "int \<Rightarrow> int" where
  "MinFromTime t = (t div msPerMinute) mod 60"

definition SecFromTime :: "int \<Rightarrow> int" where
  "SecFromTime t = (t div msPerSecond) mod 60"

definition MakeTime :: "int \<Rightarrow> int \<Rightarrow> int \<Rightarrow> int \<Rightarrow> int" where
  "MakeTime h m s milli = h * msPerHour + m * msPerMinute + s * msPerSecond + milli"

definition MakeDay :: "int \<Rightarrow> int \<Rightarrow> int \<Rightarrow> int" where
  "MakeDay y m dt =
     (let ym = y + m div 12; mn = m mod 12
      in DayFromYear ym + monthStart mn (leapDays ym) + dt - 1)"

definition MakeDate :: "int \<Rightarrow> int \<Rightarrow> int" where
  "MakeDate day time = day * msPerDay + time"


subsection \<open>The host's local zone and the Date methods\<close>

text \<open>
  The local zone of the machine the picker runs on is a parameter: \<open>tza_utc h t\<close> is
  ECMA-262's \<open>LocalTZA(t, true)\<close>, the offset in milliseconds in force at the instant
  \<open>t\<close>, and \<open>tza_local h t\<close> is \<open>LocalTZA(t, false)\<close>, the offset chosen for a local
  time value. \<open>fixedHost k\<close> is a host whose zone has the constant offset \<open>k\<close>.
\<close>

record host =
  tza_utc :: "int \<Rightarrow> int"
  tza_local :: "int \<Rightarrow> int"

definition fixedHost :: "int \<Rightarrow> host" where
  "fixedHost k = \<lparr>tza_utc = (\<lambda>t. k), tza_local = (\<lambda>t. k)\<rparr>"

definition LocalTime :: "host \<Rightarrow> int \<Rightarrow> int" where
  "LocalTime h t = t + tza_utc h t"

definition UTC :: "host \<Rightarrow> int \<Rightarrow> int" where
  "UTC h t = t - tza_local h t"

definition getFullYear :: "host \<Rightarrow> int \<Rightarrow> int" where
  "getFullYear h d = YearFromTime (LocalTime h d)"

definition getMonth :: "host \<Rightarrow> int \<Rightarrow> int" where
  "getMonth h d = MonthFromTime (LocalTime h d)"

definition getDate :: "host \<Rightarrow> int \<Rightarrow> int" where
  "getDate h d = DateFromTime (LocalTime h d)"

definition getDay :: "host \<Rightarrow> int \<Rightarrow> int" where
  "getDay h d = WeekDay (LocalTime h d)"

definition getHours :: "host \<Rightarrow> int \<Rightarrow> int" where
  "getHours h d = HourFromTime (LocalTime h d)"

text \<open>\<open>d.setHours(hh, mm, ss, ms)\<close>, returning the new time value.\<close>

definition setHours :: "host \<Rightarrow> int \<Rightarrow> int \<Rightarrow> int \<Rightarrow> int \<Rightarrow> int \<Rightarrow> int" where
  "setHours h d hh mm ss milli =
     UTC h (MakeDate (Day (LocalTime h d)) (MakeTime hh mm ss milli))"

definition setDate :: "host \<Rightarrow> int \<Rightarrow> int \<Rightarrow> int" where
  "setDate h d dt =
     (let t = LocalTime h d
      in UTC h (MakeDate (MakeDay (YearFromTime t) (MonthFromTime t) dt) (TimeWithinDay t)))"

definition setMonth :: "host \<Rightarrow> int \<Rightarrow> int \<Rightarrow> int" where
  "setMonth h d m =
     (let t = LocalTime h d
      in UTC h (MakeDate (MakeDay (YearFromTime t) m (DateFromTime t)) (TimeWithinDay t)))"

text \<open>
  \<open>new Date(y, m, d, hh, mm, ss)\<close>: the fields are local time, and a year from 0 to 99
  means 1900 + y.
\<close>

definition newDate :: "host \<Rightarrow> int \<Rightarrow> int \<Rightarrow> int \<Rightarrow> int \<Rightarrow> int \<Rightarrow> int \<Rightarrow> int" where
  "newDate h y m d hh mm ss =
     (let yr = (if 0 \<le> y \<and> y \<le> 99 then 1900 + y else y)
      in UTC h (MakeDate (MakeDay yr m d) (MakeTime hh mm ss 0)))"

section \<open>dateState.ts: the range model and its validators\<close>

record DateTimeValue =
  date :: "int option"
  time :: "string option"

record DateTimeRange =
  range_start :: DateTimeValue
  range_end :: DateTimeValue

record PickerConstraints =
  minDate :: "int option"
  maxDate :: "int option"
  blackoutDates :: "int list option"
  minDuration :: "int option"
  maxDuration :: "int option"
  disabledDays :: "int list option"

record DateValidation =
  dv_valid :: bool
  dv_error :: "string option"

record RangeValidation =
  rv_valid :: bool
  rv_errors :: "string list"

definition isSameDay :: "host \<Rightarrow> int \<Rightarrow> int \<Rightarrow> bool" where
  "isSameDay h d1 d2 =
     (getFullYear h d1 = getFullYear h d2 \<and> getMonth h d1 = getMonth h d2 \<and>
      getDate h d1 = getDate h d2)"

definition isDateValid :: "host \<Rightarrow> int \<Rightarrow> PickerConstraints \<Rightarrow> DateValidation" where
  "isDateValid h d c =
     (if (case minDate c of Some m \<Rightarrow> d < m | None \<Rightarrow> False)
      then \<lparr>dv_valid = False, dv_error = Some ''Date is before minimum allowed''\<rparr>
      else if (case maxDate c of Some m \<Rightarrow> d > m | None \<Rightarrow> False)
      then \<lparr>dv_valid = False, dv_error = Some ''Date is after maximum allowed''\<rparr>
      else if (case blackoutDates c of Some bds \<Rightarrow> list_ex (\<lambda>bd. isSameDay h bd d) bds
               | None \<Rightarrow> False)
      then \<lparr>dv_valid = False, dv_error = Some ''This date is not available''\<rparr>
      else if (case disabledDays c of Some ds \<Rightarrow> List.member ds (getDay h d) | None \<Rightarrow> False)
      then \<lparr>dv_valid = False, dv_error = Some ''This day is disabled''\<rparr>
      else \<lparr>dv_valid = True, dv_error = None\<rparr>)"

text \<open>
  \<open>combineDateTime\<close>: \<open>time.split(':').map(Number)\<close>, the first two numbers to
  \<open>setHours(hours, minutes, 0, 0)\<close>. A missing or non-numeric piece is \<open>NaN\<close> and the
  result an Invalid Date, \<open>None\<close>.
\<close>

definition combineDateTime :: "host \<Rightarrow> int \<Rightarrow> string \<Rightarrow> int option" where
  "combineDateTime h d t =
     (case split_colon t of
        p0 # p1 # _ \<Rightarrow>
          (case (Number_js p0, Number_js p1) of
             (Some hours, Some minutes) \<Rightarrow> Some (setHours h d hours minutes 0 0)
           | _ \<Rightarrow> None)
      | _ \<Rightarrow> None)"

definition formatDuration :: "int \<Rightarrow> string" where
  "formatDuration ms =
     (let seconds = ms div 1000;
          minutes = seconds div 60;
          hours = minutes div 60;
          days = hours div 24
      in if days > 0 then show_int days @ '' day'' @ (if days > 1 then ''s'' else [])
         else if hours > 0 then show_int hours @ '' hour'' @ (if hours > 1 then ''s'' else [])
         else if minutes > 0
           then show_int minutes @ '' minute'' @ (if minutes > 1 then ''s'' else [])
         else show_int seconds @ '' second'' @ (if seconds > 1 then ''s'' else []))"

text \<open>Truthiness of a \<open>string | null\<close>: null and the empty string are falsy.\<close>

definition truthy_string :: "string option \<Rightarrow> bool" where
  "truthy_string t = (case t of None \<Rightarrow> False | Some s \<Rightarrow> s \<noteq> [])"

definition or_default :: "string option \<Rightarrow> string \<Rightarrow> string" where
  "or_default t dflt = (case t of None \<Rightarrow> dflt | Some s \<Rightarrow> (if s = [] then dflt else s))"

definition completenessErrors :: "DateTimeRange \<Rightarrow> string list" where
  "completenessErrors r =
     (if date (range_start r) = None \<or> \<not> truthy_string (time (range_start r))
      then [''Start date and time are required''] else []) @
     (if date (range_end r) = None \<or> \<not> truthy_string (time (range_end r))
      then [''End date and time are required''] else [])"

definition sideErrors :: "host \<Rightarrow> string \<Rightarrow> int option \<Rightarrow> PickerConstraints \<Rightarrow> string list" where
  "sideErrors h prefix d c =
     (case d of
        None \<Rightarrow> []
      | Some dd \<Rightarrow>
          (let v = isDateValid h dd c
           in if \<not> dv_valid v
              then [prefix @ (case dv_error v of Some e \<Rightarrow> e | None \<Rightarrow> ''undefined'')]
              else []))"

text \<open>
  The ordering and duration block. Comparisons with an Invalid Date are false, and a
  duration bound of \<open>0\<close> is falsy, so that it counts as not set.
\<close>

definition orderErrors :: "host \<Rightarrow> DateTimeRange \<Rightarrow> PickerConstraints \<Rightarrow> string list" where
  "orderErrors h r c =
     (case (date (range_start r), date (range_end r)) of
        (Some sd, Some ed) \<Rightarrow>
          (let startTime = combineDateTime h sd (or_default (time (range_start r)) ''00:00'');
               endTime = combineDateTime h ed (or_default (time (range_end r)) ''00:00'');
               duration = (case (startTime, endTime) of
                             (Some s, Some e) \<Rightarrow> Some (e - s) | _ \<Rightarrow> None)
           in (if (case (startTime, endTime) of (Some s, Some e) \<Rightarrow> s \<ge> e | _ \<Rightarrow> False)
               then [''Start must be before end''] else []) @
              (case minDuration c of
                 Some m \<Rightarrow>
                   (if m \<noteq> 0 \<and> (case duration of Some dur \<Rightarrow> dur < m | None \<Rightarrow> False)
                    then [''Duration must be at least '' @ formatDuration m] else [])
               | None \<Rightarrow> []) @
              (case maxDuration c of
                 Some m \<Rightarrow>
                   (if m \<noteq> 0 \<and> (case duration of Some dur \<Rightarrow> dur > m | None \<Rightarrow> False)
                    then [''Duration must not exceed '' @ formatDuration m] else [])
               | None \<Rightarrow> []))
      | _ \<Rightarrow> [])"

definition isRangeValid :: "host \<Rightarrow> DateTimeRange \<Rightarrow> PickerConstraints \<Rightarrow> RangeValidation" where
  "isRangeValid h r c =
     (let errors = completenessErrors r
      in if length errors > 0 then \<lparr>rv_valid = False, rv_errors = errors\<rparr>
         else
           (let errors = errors @ sideErrors h ''Start: '' (date (range_start r)) c;
                errors = errors @ sideErrors h ''End: '' (date (range_end r)) c;
                errors = errors @ orderErrors h r c
            in \<lparr>rv_valid = (length errors = 0), rv_errors = errors\<rparr>))"




section \<open>timezone.ts: conversions between instants and civil time\<close>

definition getAllTimezones :: "string list" where
  "getAllTimezones =
     [''UTC'', ''GMT'',
      ''America/New_York'', ''America/Chicago'', ''America/Denver'', ''America/Los_Angeles'',
      ''America/Anchorage'', ''Pacific/Honolulu'', ''America/Toronto'', ''America/Mexico_City'',
      ''America/Buenos_Aires'', ''America/Sao_Paulo'',
      ''Europe/London'', ''Europe/Paris'', ''Europe/Berlin'', ''Europe/Amsterdam'',
      ''Europe/Brussels'', ''Europe/Vienna'', ''Europe/Prague'', ''Europe/Warsaw'',
      ''Europe/Moscow'', ''Europe/Istanbul'',
      ''Asia/Dubai'', ''Asia/Kolkata'', ''Asia/Bangkok'', ''Asia/Singapore'',
      ''Asia/Hong_Kong'', ''Asia/Shanghai'', ''Asia/Tokyo'', ''Asia/Seoul'', ''Asia/Jakarta'',
      ''Asia/Manila'',
      ''Australia/Sydney'', ''Australia/Melbourne'', ''Australia/Brisbane'', ''Australia/Perth'',
      ''Australia/Adelaide'',
      ''Pacific/Auckland'', ''Pacific/Fiji'']"

text \<open>
  The zone rules are the platform's (\<open>Intl.DateTimeFormat\<close>), not the repository's: they
  are a parameter. A zone database maps an identifier it knows to the zone's offset from
  UTC in minutes at each instant and to its long name there; constructing a formatter
  for an identifier it does not know throws \<open>RangeError\<close>.
\<close>

record zone_data =
  zd_offset :: "int \<Rightarrow> int"
  zd_long_name :: "int \<Rightarrow> string"

type_synonym tzdb = "string \<Rightarrow> zone_data option"

datatype js_error = RangeError

definition utcZone :: zone_data where
  "utcZone = \<lparr>zd_offset = (\<lambda>t. 0), zd_long_name = (\<lambda>t. ''Coordinated Universal Time'')\<rparr>"

text \<open>
  The numeric parts of \<open>formatToParts\<close> under the options the code passes (two-digit
  fields, \<open>hour12: false\<close> as the hour cycle 0 to 23), already read back with \<open>parseInt\<close>.
  A year before 1 AD is printed as its year of the era BC.
\<close>

record dt_parts =
  p_year :: int
  p_month :: int
  p_day :: int
  p_hour :: int
  p_minute :: int
  p_second :: int

definition formatToParts :: "zone_data \<Rightarrow> int \<Rightarrow> dt_parts" where
  "formatToParts z t =
     (let tl = t + zd_offset z t * msPerMinute; y = YearFromTime tl
      in \<lparr>p_year = (if y \<le> 0 then 1 - y else y), p_month = MonthFromTime tl + 1,
          p_day = DateFromTime tl, p_hour = HourFromTime tl, p_minute = MinFromTime tl,
          p_second = SecFromTime tl\<rparr>)"

text \<open>The \<open>timeZoneName: 'shortOffset'\<close> part: \<open>GMT\<close>, \<open>GMT-5\<close>, \<open>GMT+5:30\<close>.\<close>

definition pad2 :: "nat \<Rightarrow> string" where
  "pad2 n = (if n < 10 then ''0'' else []) @ show_nat n"

definition shortOffset :: "int \<Rightarrow> string" where
  "shortOffset m =
     ''GMT'' @
     (if m = 0 then []
      else (if m < 0 then ''-'' else ''+'') @ show_nat (nat (\<bar>m\<bar> div 60)) @
           (if \<bar>m\<bar> mod 60 = 0 then [] else '':'' @ pad2 (nat (\<bar>m\<bar> mod 60))))"

text \<open>The regular expression \<open>/GMT([+-]\d+)/\<close>: its first match, and the captured group.\<close>

fun gmtOffsetAt :: "string \<Rightarrow> string option" where
  "gmtOffsetAt (g # m # t # sg # rest) =
     (if g = CHR ''G'' \<and> m = CHR ''M'' \<and> t = CHR ''T'' \<and> (sg = CHR ''+'' \<or> sg = CHR ''-'') \<and>
         takeWhile isDigit rest \<noteq> []
      then Some (sg # takeWhile isDigit rest) else None)"
| "gmtOffsetAt _ = None"

fun gmtOffsetMatch :: "string \<Rightarrow> string option" where
  "gmtOffsetMatch [] = None"
| "gmtOffsetMatch (c # cs) =
     (case gmtOffsetAt (c # cs) of Some cap \<Rightarrow> Some cap | None \<Rightarrow> gmtOffsetMatch cs)"

definition utcToTimezone :: "tzdb \<Rightarrow> host \<Rightarrow> int \<Rightarrow> string \<Rightarrow> js_error + int" where
  "utcToTimezone db h utcDate timezone =
     (case db timezone of
        None \<Rightarrow> Inl RangeError
      | Some z \<Rightarrow>
          (let v = formatToParts z utcDate
           in Inr (newDate h (p_year v) (p_month v - 1) (p_day v) (p_hour v) (p_minute v)
                     (p_second v))))"

text \<open>
  \<open>timezoneToUtc\<close>: the offset is read from the short offset name at \<open>localDate\<close> taken
  as an instant. The captured group always holds a digit, so \<open>parseInt\<close> of it is a number.
\<close>

definition timezoneToUtc :: "tzdb \<Rightarrow> int \<Rightarrow> string \<Rightarrow> js_error + int" where
  "timezoneToUtc db localDate timezone =
     (case db timezone of
        None \<Rightarrow> Inl RangeError
      | Some z \<Rightarrow>
          (let tzPart = shortOffset (zd_offset z localDate);
               offset = (case gmtOffsetMatch tzPart of
                           Some cap \<Rightarrow> (case parseInt cap of Some n \<Rightarrow> n * 60 | None \<Rightarrow> 0)
                         | None \<Rightarrow> 0)
           in Inr (localDate - offset * 60 * 1000)))"

definition getOffsetMinutes :: "tzdb \<Rightarrow> int \<Rightarrow> string \<Rightarrow> js_error + int" where
  "getOffsetMinutes db d timezone =
     (case db timezone of
        None \<Rightarrow> Inl RangeError
      | Some z \<Rightarrow>
          (let utcTime = formatToParts utcZone d;
               tzTime = formatToParts z d;
               utcTotalMinutes = p_hour utcTime * 60 + p_minute utcTime;
               tzTotalMinutes = p_hour tzTime * 60 + p_minute tzTime
           in Inr (tzTotalMinutes - utcTotalMinutes)))"

definition isDaylightSavings :: "tzdb \<Rightarrow> host \<Rightarrow> int \<Rightarrow> string \<Rightarrow> js_error + bool" where
  "isDaylightSavings db h d timezone =
     (let d1 = d; d2 = setMonth h d (getMonth h d + 6)
      in case getOffsetMinutes db d1 timezone of
           Inl e \<Rightarrow> Inl e
         | Inr offset1 \<Rightarrow>
             (case getOffsetMinutes db d2 timezone of
                Inl e \<Rightarrow> Inl e
              | Inr offset2 \<Rightarrow> Inr (offset1 > offset2)))"

text \<open>
  \<open>new Date(date.toLocaleString('en-US', {timeZone}))\<close>: the civil fields of the instant
  in the zone, read back as local time of the host. Parsing this format is left to the
  implementation by ECMA-262; the model reads the printed fields as they are and takes a
  year below 50 as 2000 + y and one from 50 to 99 as 1900 + y, as V8 does.
\<close>

definition parseLocaleString :: "host \<Rightarrow> dt_parts \<Rightarrow> int" where
  "parseLocaleString h v =
     (let y = p_year v;
          yr = (if 0 \<le> y \<and> y < 50 then 2000 + y else if 50 \<le> y \<and> y \<le> 99 then 1900 + y else y)
      in UTC h (MakeDate (MakeDay yr (p_month v - 1) (p_day v))
                  (MakeTime (p_hour v) (p_minute v) (p_second v) 0)))"

record TimezoneInfo =
  ti_name :: string
  ti_offset :: rat
  ti_abbreviation :: string
  ti_isDST :: bool

definition getTimezoneInfo :: "tzdb \<Rightarrow> host \<Rightarrow> int \<Rightarrow> string \<Rightarrow> js_error + TimezoneInfo" where
  "getTimezoneInfo db h d timezone =
     (case db timezone of
        None \<Rightarrow> Inl RangeError
      | Some z \<Rightarrow>
          (let tzName = (if zd_long_name z d = [] then timezone else zd_long_name z d);
               utcDate = parseLocaleString h (formatToParts utcZone d);
               tzDate = parseLocaleString h (formatToParts z d);
               offsetMs = utcDate - tzDate;
               offsetMinutes = of_int offsetMs / (1000 * 60)
           in case isDaylightSavings db h d timezone of
                Inl e \<Rightarrow> Inl e
              | Inr dst \<Rightarrow>
                  Inr \<lparr>ti_name = timezone, ti_offset = offsetMinutes,
                       ti_abbreviation = take 4 tzName, ti_isDST = dst\<rparr>))"

text \<open>\<open>daysBetween\<close>: \<open>Math.ceil\<close> of the distance of the two local midnights in days.\<close>

definition daysBetween :: "host \<Rightarrow> int \<Rightarrow> int \<Rightarrow> int" where
  "daysBetween h startDate endDate =
     (let s = setHours h startDate 0 0 0 0;
          e = setHours h endDate 0 0 0 0;
          diffTime = \<bar>e - s\<bar>
      in - ((- diffTime) div (1000 * 60 * 60 * 24)))"

section \<open>presets.ts: the relative presets\<close>

text \<open>
  The \<open>getRange\<close> of a preset reads the clock with \<open>new Date()\<close>; the instant it reads is
  the parameter \<open>now\<close>.
\<close>

record PresetRange =
  pr_start :: int
  pr_startTime :: string
  pr_end :: int
  pr_endTime :: string

definition last7days_getRange :: "host \<Rightarrow> int \<Rightarrow> PresetRange" where
  "last7days_getRange h now =
     (let e = setHours h now 23 59 59 999;
          s = setDate h now (getDate h now - 6);
          s = setHours h s 0 0 0 0
      in \<lparr>pr_start = s, pr_startTime = ''00:00'', pr_end = e, pr_endTime = ''23:59''\<rparr>)"

section \<open>A sample of the platform's zone data\<close>

text \<open>
  An excerpt of the IANA data as \<open>Intl\<close> serves it, for the concrete scenarios: UTC;
  New York with the two transitions of 2025 (daylight time from 2025-03-09T07:00Z to
  2025-11-02T06:00Z, so the entry is right for the instants of 2025); Kolkata, at +5:30
  all year; and Nairobi, at +3:00 all year, a zone that is not in the catalog of
  \<open>getAllTimezones\<close>.
\<close>

definition newYork2025 :: zone_data where
  "newYork2025 =
     \<lparr>zd_offset = (\<lambda>t. if 1741503600000 \<le> t \<and> t < 1762063200000 then - 240 else - 300),
      zd_long_name = (\<lambda>t. if 1741503600000 \<le> t \<and> t < 1762063200000
                           then ''Eastern Daylight Time'' else ''Eastern Standard Time'')\<rparr>"

definition sampleZones :: tzdb where
  "sampleZones tz =
     (if tz = ''UTC'' then Some utcZone
      else if tz = ''America/New_York'' then Some newYork2025
      else if tz = ''Asia/Kolkata''
        then Some \<lparr>zd_offset = (\<lambda>t. 330), zd_long_name = (\<lambda>t. ''India Standard Time'')\<rparr>
      else if tz = ''Africa/Nairobi''
        then Some \<lparr>zd_offset = (\<lambda>t. 180), zd_long_name = (\<lambda>t. ''East Africa Time'')\<rparr>
      else None)"

section \<open>Definitions that follow the specification's words\<close>

text \<open>
  The wire format of a time of day: \<open>^([01]\d|2[0-3]):([0-5]\d)$\<close>. The validators take
  time strings of this form as their precondition.
\<close>

fun spec_timeString :: "string \<Rightarrow> bool" where
  "spec_timeString [h1, h2, c, m1, m2] =
     (((h1 = CHR ''0'' \<or> h1 = CHR ''1'') \<and> isDigit h2 \<or> h1 = CHR ''2'' \<and> h2 \<in> set ''0123'') \<and>
      c = CHR '':'' \<and> m1 \<in> set ''012345'' \<and> isDigit m2)"
| "spec_timeString _ = False"

text \<open>
  The duration formatting policy: the largest whole unit among days, hours, minutes and
  seconds whose floored magnitude is not zero, with an \<open>s\<close> when the magnitude exceeds 1.
  There is no such unit when every magnitude is zero.
\<close>

definition spec_unitPhrase :: "int \<Rightarrow> string \<Rightarrow> string" where
  "spec_unitPhrase n u = show_int n @ '' '' @ u @ (if n > 1 then ''s'' else [])"

definition spec_formatDuration :: "int \<Rightarrow> string option" where
  "spec_formatDuration ms =
     map_option (\<lambda>(n, u). spec_unitPhrase n u)
       (find (\<lambda>(n, u). n \<noteq> 0)
          [(ms div 86400000, ''day''), (ms div 3600000, ''hour''), (ms div 60000, ''minute''),
           (ms div 1000, ''second'')])"

text \<open>The two conversions one after the other: an instant to civil time and back.\<close>

definition roundTrip :: "tzdb \<Rightarrow> host \<Rightarrow> int \<Rightarrow> string \<Rightarrow> js_error + int" where
  "roundTrip db h t timezone =
     (case utcToTimezone db h t timezone of
        Inl e \<Rightarrow> Inl e
      | Inr localDate \<Rightarrow> timezoneToUtc db localDate timezone)"

text \<open>
  Two properties of a host zone. A local time value exists when the zone really shows
  it: taking it to an instant and back gives the same local time (a local time skipped
  by a forward transition does not exist). The midnights of two calendar days are in
  order when their instants compare as the days do.
\<close>

definition localTimeExists :: "host \<Rightarrow> int \<Rightarrow> bool" where
  "localTimeExists h x = (LocalTime h (UTC h x) = x)"


text \<open>
  The combined civil value of a date and a well-formed \<open>HH:MM\<close> string, in the words of
  the specification: the local calendar day of the date, at the hour and minute the
  string names. It is a local time value, not an instant.
\<close>

fun spec_hhmm :: "string \<Rightarrow> int \<times> int" where
  "spec_hhmm [h1, h2, c, m1, m2] =
     (int (10 * digit_val h1 + digit_val h2), int (10 * digit_val m1 + digit_val m2))"
| "spec_hhmm _ = (0, 0)"

definition spec_civilDateTime :: "host \<Rightarrow> int \<Rightarrow> string \<Rightarrow> int" where
  "spec_civilDateTime h d t =
     (case spec_hhmm t of (hh, mm) \<Rightarrow> MakeDate (Day (LocalTime h d)) (MakeTime hh mm 0 0))"

section \<open>Two hosts with daylight-saving time\<close>

text \<open>
  A host in New York and a host in Cairo, with the transitions of 2025. In New York the
  clocks go from 02:00 to 03:00 on 2025-03-09 (at 07:00Z) and from 02:00 back to 01:00 on
  2025-11-02 (at 06:00Z). In Cairo they go from 00:00 to 01:00 on 2025-04-25 (at
  2025-04-24T22:00Z), so that this day has no midnight, and from 24:00 back to 23:00 on
  2025-10-30 (at 21:00Z). As ECMA-262 asks, a local time that a transition skips or
  repeats is read with the offset in force before the transition.
\<close>

definition newYorkHost2025 :: host where
  "newYorkHost2025 =
     \<lparr>tza_utc = (\<lambda>t. if MakeDate (MakeDay 2025 2 9) (MakeTime 7 0 0 0) \<le> t \<and>
                         t < MakeDate (MakeDay 2025 10 2) (MakeTime 6 0 0 0)
                      then - 4 * msPerHour else - 5 * msPerHour),
      tza_local = (\<lambda>t. if MakeDate (MakeDay 2025 2 9) (MakeTime 3 0 0 0) \<le> t \<and>
                           t < MakeDate (MakeDay 2025 10 2) (MakeTime 2 0 0 0)
                        then - 4 * msPerHour else - 5 * msPerHour)\<rparr>"

definition cairoHost2025 :: host where
  "cairoHost2025 =
     \<lparr>tza_utc = (\<lambda>t. if MakeDate (MakeDay 2025 3 24) (MakeTime 22 0 0 0) \<le> t \<and>
                         t < MakeDate (MakeDay 2025 9 30) (MakeTime 21 0 0 0)
                      then 3 * msPerHour else 2 * msPerHour),
      tza_local = (\<lambda>t. if MakeDate (MakeDay 2025 3 25) (MakeTime 1 0 0 0) \<le> t \<and>
                           t < MakeDate (MakeDay 2025 9 31) (MakeTime 0 0 0 0)
                        then 3 * msPerHour else 2 * msPerHour)\<rparr>"

section \<open>Values of the repository's tests\<close>

text \<open>
  The tests build their ranges from local dates such as \<open>new Date(2025, 0, 15)\<close>; on a host
  at UTC that is the time value 1736899200000.
\<close>

definition noConstraints :: PickerConstraints where
  "noConstraints =
     \<lparr>minDate = None, maxDate = None, blackoutDates = None, minDuration = None,
      maxDuration = None, disabledDays = None\<rparr>"

definition mkRange :: "int \<Rightarrow> string \<Rightarrow> int \<Rightarrow> string \<Rightarrow> DateTimeRange" where
  "mkRange sd st ed et =
     \<lparr>range_start = \<lparr>date = Some sd, time = Some st\<rparr>,
      range_end = \<lparr>date = Some ed, time = Some et\<rparr>\<rparr>"

section \<open>Properties of the platform model\<close>

lemmas es_time_defs =
  msPerDay_def msPerHour_def msPerMinute_def msPerSecond_def Day_def TimeWithinDay_def
  DaysInYear_def DayFromYear_def yearOfDay_def YearFromTime_def leapDays_def InLeapYear_def
  DayWithinYear_def monthStart_def monthOfYearDay_def MonthFromTime_def DateFromTime_def
  WeekDay_def HourFromTime_def MinFromTime_def SecFromTime_def MakeTime_def MakeDay_def
  MakeDate_def Let_def

lemmas date_defs =
  fixedHost_def LocalTime_def UTC_def getFullYear_def getMonth_def getDate_def getDay_def
  getHours_def setHours_def setDate_def setMonth_def newDate_def

lemmas string_defs = isDigit_def digit_val_def parse_digits_def Number_js_def

lemma int_div_bounds: "0 < (k::int) \<Longrightarrow> k * (a div k) \<le> a \<and> a < k * (a div k) + k"
  using mult_div_mod_eq [of k a] pos_mod_bound [of k a] pos_mod_sign [of k a] by linarith

lemma monthOfYearDay_range: "0 \<le> monthOfYearDay d l \<and> monthOfYearDay d l \<le> 11"
  by (simp add: monthOfYearDay_def)

lemma MakeDay_roundtrip:
  "MakeDay (YearFromTime t) (MonthFromTime t) (DateFromTime t) = Day t"
proof -
  have r: "0 \<le> MonthFromTime t \<and> MonthFromTime t \<le> 11"
    unfolding MonthFromTime_def by (rule monthOfYearDay_range)
  then have "MonthFromTime t div 12 = 0" and "MonthFromTime t mod 12 = MonthFromTime t"
    by simp_all
  then show ?thesis
    by (simp add: MakeDay_def DateFromTime_def DayWithinYear_def InLeapYear_def)
qed

text \<open>The executable year is the year of ECMA-262: the largest one that starts by the day.\<close>

lemma yearOfDay_bounds:
  "DayFromYear (yearOfDay d) \<le> d \<and> d < DayFromYear (yearOfDay d + 1)"
proof -
  define q where "q = (400 * d) div 146097"
  have q1: "146097 * q \<le> 400 * d" "400 * d < 146097 * q + 146097"
    unfolding q_def using int_div_bounds [of 146097 "400 * d"] by simp_all
  have lo: "DayFromYear (1970 + q - 1) \<le> d"
  proof -
    define a where "a = q div 4"
    define b where "b = (q + 68) div 100"
    define c where "c = (q + 368) div 400"
    have "4 * a \<le> q" "q + 68 < 100 * b + 100" "400 * c \<le> q + 368"
      unfolding a_def b_def c_def using int_div_bounds [of 4 q]
        int_div_bounds [of 100 "q + 68"] int_div_bounds [of 400 "q + 368"]
      by simp_all
    then have "365 * q - 365 + a - b + c \<le> d"
      using q1 by linarith
    then show ?thesis
      unfolding DayFromYear_def a_def b_def c_def by (simp add: add.commute)
  qed
  have hi: "d < DayFromYear (1970 + q + 2)"
  proof -
    define a where "a = (q + 3) div 4"
    define b where "b = (q + 71) div 100"
    define c where "c = (q + 371) div 400"
    have "q + 3 < 4 * a + 4" "100 * b \<le> q + 71" "q + 371 < 400 * c + 400"
      unfolding a_def b_def c_def using int_div_bounds [of 4 "q + 3"]
        int_div_bounds [of 100 "q + 71"] int_div_bounds [of 400 "q + 371"]
      by simp_all
    then have "d < 365 * q + 730 + a - b + c"
      using q1 by linarith
    then show ?thesis
      unfolding DayFromYear_def a_def b_def c_def by (simp add: add.commute)
  qed
  have y2: "1970 + q + 1 + 1 = 1970 + q + 2" by simp
  show ?thesis
    using lo hi unfolding yearOfDay_def q_def [symmetric] Let_def
    by (auto simp: y2)
qed

section \<open>The validators of dateState.ts\<close>

lemma combine_ex1: "combineDateTime (fixedHost 0) 1736985600000 ''17:00'' = Some 1737046800000"
  by (simp add: combineDateTime_def string_defs date_defs es_time_defs)

lemma combine_ex2: "combineDateTime (fixedHost 0) 1736899200000 ''09:00'' = Some 1736931600000"
  by (simp add: combineDateTime_def string_defs date_defs es_time_defs)

lemma combine_ex3: "combineDateTime (fixedHost 0) 1736899200000 ''10:00'' = Some 1736935200000"
  by (simp add: combineDateTime_def string_defs date_defs es_time_defs)

lemma isDigit_not_colon: "isDigit c \<Longrightarrow> c \<noteq> CHR '':''"
  by (auto simp: isDigit_def)

lemma split_colon_hhmm:
  assumes "a \<noteq> CHR '':''" "b \<noteq> CHR '':''" "c \<noteq> CHR '':''" "d \<noteq> CHR '':''"
  shows "split_colon [a, b, CHR '':'', c, d] = [ [a, b], [c, d] ]"
  using assms by simp

lemma spec_timeString_combine:
  assumes "spec_timeString t"
  shows "\<exists>v. combineDateTime h d t = Some v"
proof -
  from assms obtain h1 h2 m1 m2 where
    t: "t = [h1, h2, CHR '':'', m1, m2]" and
    c: "(h1 = CHR ''0'' \<or> h1 = CHR ''1'') \<and> isDigit h2 \<or> h1 = CHR ''2'' \<and> h2 \<in> set ''0123''"
      "m1 \<in> set ''012345''" "isDigit m2"
    by (auto elim!: spec_timeString.elims(2))
  have dg: "isDigit h1" "isDigit h2" "isDigit m1" "isDigit m2"
    using c by (auto simp: isDigit_def)
  have sp: "split_colon t = [ [h1, h2], [m1, m2] ]"
    unfolding t using dg by (intro split_colon_hhmm isDigit_not_colon)
  show ?thesis
    by (simp add: combineDateTime_def sp Number_js_def dg)
qed

lemma spec_timeString_truthy: "spec_timeString t \<Longrightarrow> truthy_string (Some t)"
  by (auto elim!: spec_timeString.elims(2) simp: truthy_string_def)

lemma order_msg_not_side:
  "''Start must be before end'' \<notin> set (sideErrors h ''Start: '' d c)"
  "''Start must be before end'' \<notin> set (sideErrors h ''End: '' d c)"
  by (simp_all add: sideErrors_def Let_def split: option.splits)

lemma order_msg_orderErrors:
  assumes "date (range_start r) = Some sd" "date (range_end r) = Some ed"
    "combineDateTime h sd (or_default (time (range_start r)) ''00:00'') = Some s"
    "combineDateTime h ed (or_default (time (range_end r)) ''00:00'') = Some e"
  shows "''Start must be before end'' \<in> set (orderErrors h r c) \<longleftrightarrow> e \<le> s"
  using assms by (simp add: orderErrors_def Let_def split: option.splits)

lemma isRangeValid_complete:
  assumes "completenessErrors r = []"
  shows "rv_errors (isRangeValid h r c) =
           sideErrors h ''Start: '' (date (range_start r)) c @
           sideErrors h ''End: '' (date (range_end r)) c @ orderErrors h r c"
    and "rv_valid (isRangeValid h r c) \<longleftrightarrow>
           sideErrors h ''Start: '' (date (range_start r)) c = [] \<and>
           sideErrors h ''End: '' (date (range_end r)) c = [] \<and> orderErrors h r c = []"
  using assms by (simp_all add: isRangeValid_def Let_def)

lemma completenessErrors_empty:
  "completenessErrors r = [] \<longleftrightarrow>
     date (range_start r) \<noteq> None \<and> truthy_string (time (range_start r)) \<and>
     date (range_end r) \<noteq> None \<and> truthy_string (time (range_end r))"
  by (auto simp: completenessErrors_def)

text \<open>
  Claim C4. When the start date, the start time, the end date or the end time of a range
  is null, \<open>isRangeValid\<close> returns at once: the range is invalid and the error list holds
  the completeness messages only, the start message when a start field is missing and
  the end message when an end field is missing (an empty time string counts as missing
  too). No per-side, ordering or duration message is in the list.
\<close>

theorem isRangeValid_incomplete:
  assumes "date (range_start r) = None \<or> time (range_start r) = None \<or>
           date (range_end r) = None \<or> time (range_end r) = None"
  shows "isRangeValid h r c =
           \<lparr>rv_valid = False,
            rv_errors =
              (if date (range_start r) = None \<or> time (range_start r) = None \<or>
                  time (range_start r) = Some []
               then [''Start date and time are required''] else []) @
              (if date (range_end r) = None \<or> time (range_end r) = None \<or>
                  time (range_end r) = Some []
               then [''End date and time are required''] else [])\<rparr>"
  using assms
  by (auto simp: isRangeValid_def completenessErrors_def truthy_string_def Let_def
      split: option.splits)

theorem isRangeValid_incomplete_witness:
  "(date (range_start \<lparr>range_start = \<lparr>date = Some 1736899200000, time = None\<rparr>,
                        range_end = \<lparr>date = Some 1736985600000, time = Some ''17:00''\<rparr>\<rparr>) = None \<or>
    time (range_start \<lparr>range_start = \<lparr>date = Some 1736899200000, time = None\<rparr>,
                        range_end = \<lparr>date = Some 1736985600000, time = Some ''17:00''\<rparr>\<rparr>) = None) \<and>
   isRangeValid (fixedHost 0)
     \<lparr>range_start = \<lparr>date = Some 1736899200000, time = None\<rparr>,
      range_end = \<lparr>date = Some 1736985600000, time = Some ''17:00''\<rparr>\<rparr>
     \<lparr>minDate = Some 1767225600000, maxDate = None, blackoutDates = None,
      minDuration = Some 1, maxDuration = Some 1, disabledDays = None\<rparr> =
   \<lparr>rv_valid = False, rv_errors = [''Start date and time are required'']\<rparr>"
  using isRangeValid_incomplete [of
      "\<lparr>range_start = \<lparr>date = Some 1736899200000, time = None\<rparr>,
        range_end = \<lparr>date = Some 1736985600000, time = Some ''17:00''\<rparr>\<rparr>"
      "fixedHost 0"
      "\<lparr>minDate = Some 1767225600000, maxDate = None, blackoutDates = None,
        minDuration = Some 1, maxDuration = Some 1, disabledDays = None\<rparr>"]
  by simp

text \<open>
  For well-formed times the combined value of \<open>combineDateTime\<close> is the instant that the
  host's zone assigns to the combined civil value.
\<close>

lemma spec_timeString_combine_civil:
  assumes "spec_timeString t"
  shows "combineDateTime h d t = Some (UTC h (spec_civilDateTime h d t))"
proof -
  from assms obtain h1 h2 m1 m2 where
    t: "t = [h1, h2, CHR '':'', m1, m2]" and
    c: "(h1 = CHR ''0'' \<or> h1 = CHR ''1'') \<and> isDigit h2 \<or> h1 = CHR ''2'' \<and> h2 \<in> set ''0123''"
      "m1 \<in> set ''012345''" "isDigit m2"
    by (auto elim!: spec_timeString.elims(2))
  have dg: "isDigit h1" "isDigit h2" "isDigit m1" "isDigit m2"
    using c by (auto simp: isDigit_def)
  have sp: "split_colon [h1, h2, CHR '':'', m1, m2] = [ [h1, h2], [m1, m2] ]"
    using dg by (intro split_colon_hhmm isDigit_not_colon)
  show ?thesis
    unfolding t
    by (simp add: combineDateTime_def sp Number_js_def dg parse_digits_def
        spec_civilDateTime_def setHours_def del: split_colon.simps)
qed

lemma order_msg_iff_combined:
  assumes "range_start r = \<lparr>date = Some sd, time = Some st\<rparr>"
    and "range_end r = \<lparr>date = Some ed, time = Some et\<rparr>"
    and "spec_timeString st" and "spec_timeString et"
  shows "\<exists>s e. combineDateTime h sd st = Some s \<and> combineDateTime h ed et = Some e \<and>
           (''Start must be before end'' \<in> set (rv_errors (isRangeValid h r c)) \<longleftrightarrow> \<not> s < e)"
proof -
  obtain s where s: "combineDateTime h sd st = Some s"
    using spec_timeString_combine [OF assms(3)] by blast
  obtain e where e: "combineDateTime h ed et = Some e"
    using spec_timeString_combine [OF assms(4)] by blast
  have tr: "truthy_string (Some st)" "truthy_string (Some et)"
    using assms(3,4) by (simp_all add: spec_timeString_truthy)
  then have ne: "st \<noteq> []" "et \<noteq> []"
    by (simp_all add: truthy_string_def)
  have compl: "completenessErrors r = []"
    using assms(1,2) tr by (simp add: completenessErrors_empty)
  have dflt: "or_default (Some st) ''00:00'' = st" "or_default (Some et) ''00:00'' = et"
    using ne by (simp_all add: or_default_def)
  have ord: "''Start must be before end'' \<in> set (orderErrors h r c) \<longleftrightarrow> e \<le> s"
    by (rule order_msg_orderErrors [where sd = sd and ed = ed])
      (simp_all add: assms(1,2) dflt s e)
  have "''Start must be before end'' \<in> set (rv_errors (isRangeValid h r c)) \<longleftrightarrow> e \<le> s"
    using ord by (simp add: isRangeValid_complete(1) [OF compl] order_msg_not_side)
  then show ?thesis
    using s e by auto
qed

text \<open>
  Claim C5, as amended. For a complete range whose times are well-formed \<open>HH:MM\<close>
  strings, the error list of \<open>isRangeValid\<close> holds \<open>Start must be before end\<close> exactly when
  the instant that the host's zone assigns to the combined start civil value (the local
  calendar day of the start date at the hour and minute of its string) is not strictly
  before the instant it assigns to the combined end civil value. When the zone reads the
  two civil values with the same offset from UTC, as every zone of constant offset does,
  that is exactly when the start civil value is not strictly less than the end civil
  value.
\<close>

theorem isRangeValid_order_civil:
  assumes "range_start r = \<lparr>date = Some sd, time = Some st\<rparr>"
    and "range_end r = \<lparr>date = Some ed, time = Some et\<rparr>"
    and "spec_timeString st" and "spec_timeString et"
  shows "(''Start must be before end'' \<in> set (rv_errors (isRangeValid h r c)) \<longleftrightarrow>
            \<not> UTC h (spec_civilDateTime h sd st) < UTC h (spec_civilDateTime h ed et)) \<and>
         (tza_local h (spec_civilDateTime h sd st) = tza_local h (spec_civilDateTime h ed et) \<longrightarrow>
            (''Start must be before end'' \<in> set (rv_errors (isRangeValid h r c)) \<longleftrightarrow>
               \<not> spec_civilDateTime h sd st < spec_civilDateTime h ed et))"
proof -
  have a: "''Start must be before end'' \<in> set (rv_errors (isRangeValid h r c)) \<longleftrightarrow>
            \<not> UTC h (spec_civilDateTime h sd st) < UTC h (spec_civilDateTime h ed et)"
    using order_msg_iff_combined [OF assms, of h c]
    by (simp add: spec_timeString_combine_civil assms(3,4))
  have b: "UTC h (spec_civilDateTime h sd st) < UTC h (spec_civilDateTime h ed et) \<longleftrightarrow>
             spec_civilDateTime h sd st < spec_civilDateTime h ed et"
    if "tza_local h (spec_civilDateTime h sd st) = tza_local h (spec_civilDateTime h ed et)"
    using that by (simp add: UTC_def)
  show ?thesis
    using a b by blast
qed

theorem isRangeValid_order_civil_witness:
  "spec_timeString ''10:00'' \<and> spec_timeString ''09:00'' \<and>
   spec_civilDateTime (fixedHost 0) 1736899200000 ''09:00'' = 1736931600000 \<and>
   spec_civilDateTime (fixedHost 0) 1736899200000 ''10:00'' = 1736935200000 \<and>
   ''Start must be before end'' \<in>
     set (rv_errors (isRangeValid (fixedHost 0)
            (mkRange 1736899200000 ''10:00'' 1736899200000 ''09:00'') noConstraints)) \<and>
   ''Start must be before end'' \<notin>
     set (rv_errors (isRangeValid (fixedHost 0)
            (mkRange 1736899200000 ''09:00'' 1736899200000 ''10:00'') noConstraints))"
proof -
  have t: "spec_timeString ''10:00''" "spec_timeString ''09:00''"
    by (simp_all add: isDigit_def)
  have r: "range_start (mkRange 1736899200000 ''10:00'' 1736899200000 ''09:00'') =
             \<lparr>date = Some 1736899200000, time = Some ''10:00''\<rparr>"
    "range_end (mkRange 1736899200000 ''10:00'' 1736899200000 ''09:00'') =
             \<lparr>date = Some 1736899200000, time = Some ''09:00''\<rparr>"
    and r': "range_start (mkRange 1736899200000 ''09:00'' 1736899200000 ''10:00'') =
             \<lparr>date = Some 1736899200000, time = Some ''09:00''\<rparr>"
    "range_end (mkRange 1736899200000 ''09:00'' 1736899200000 ''10:00'') =
             \<lparr>date = Some 1736899200000, time = Some ''10:00''\<rparr>"
    by (simp_all add: mkRange_def)
  have v: "spec_civilDateTime (fixedHost 0) 1736899200000 ''09:00'' = 1736931600000"
    "spec_civilDateTime (fixedHost 0) 1736899200000 ''10:00'' = 1736935200000"
    by code_simp+
  have z: "tza_local (fixedHost 0) x = tza_local (fixedHost 0) y" for x y
    by (simp add: fixedHost_def)
  show ?thesis
    using isRangeValid_order_civil [OF r t, of "fixedHost 0" noConstraints]
      isRangeValid_order_civil [OF r' t(2,1), of "fixedHost 0" noConstraints] t v z
    by (simp add: UTC_def fixedHost_def)
qed

text \<open>
  Claim C5 as it is stated, on the civil values themselves, fails on a host in New York.
  On 2025-03-09 the local time 02:30 is skipped, and the host reads it as 03:30: the
  civil start 02:30 is less than the civil end 03:30, both combine to the instant
  07:30:00Z, and the range is reported as not in order.
\<close>

theorem isRangeValid_order_gap_counterexample:
  "spec_civilDateTime newYorkHost2025 1741496400000 ''02:30'' <
     spec_civilDateTime newYorkHost2025 1741496400000 ''03:30'' \<and>
   combineDateTime newYorkHost2025 1741496400000 ''02:30'' = Some 1741505400000 \<and>
   combineDateTime newYorkHost2025 1741496400000 ''03:30'' = Some 1741505400000 \<and>
   rv_errors (isRangeValid newYorkHost2025
                (mkRange 1741496400000 ''02:30'' 1741496400000 ''03:30'') noConstraints) =
     [''Start must be before end'']"
  by code_simp

lemma isDateValid_minDuration_irrelevant:
  "isDateValid h d (c\<lparr>minDuration := x\<rparr>) = isDateValid h d c"
  by (simp add: isDateValid_def)

lemma sideErrors_minDuration_irrelevant:
  "sideErrors h p d (c\<lparr>minDuration := x\<rparr>) = sideErrors h p d c"
  by (simp add: sideErrors_def isDateValid_minDuration_irrelevant split: option.splits)

lemma orderErrors_eval:
  assumes "date (range_start r) = Some sd" "date (range_end r) = Some ed"
    "combineDateTime h sd (or_default (time (range_start r)) ''00:00'') = Some s"
    "combineDateTime h ed (or_default (time (range_end r)) ''00:00'') = Some e"
  shows "orderErrors h r c =
           (if e \<le> s then [''Start must be before end''] else []) @
           (case minDuration c of
              Some m \<Rightarrow> (if m \<noteq> 0 \<and> e - s < m
                         then [''Duration must be at least '' @ formatDuration m] else [])
            | None \<Rightarrow> []) @
           (case maxDuration c of
              Some m \<Rightarrow> (if m \<noteq> 0 \<and> m < e - s
                         then [''Duration must not exceed '' @ formatDuration m] else [])
            | None \<Rightarrow> [])"
  using assms by (simp add: orderErrors_def Let_def split: option.splits)

text \<open>
  The check is strict on the two instants that \<open>combineDateTime\<close> returns.
\<close>

lemma minDuration_boundary_instants:
  assumes "date (range_start r) = Some sd" and "time (range_start r) = Some st"
    and "date (range_end r) = Some ed" and "time (range_end r) = Some et"
    and "combineDateTime h sd st = Some s" and "combineDateTime h ed et = Some e"
    and "minDuration c = Some m"
    and "rv_valid (isRangeValid h r (c\<lparr>minDuration := None\<rparr>))"
  shows "(e - s = m \<longrightarrow> rv_valid (isRangeValid h r c)) \<and>
         (e - s = m - 1 \<longrightarrow>
            \<not> rv_valid (isRangeValid h r c) \<and>
            ''Duration must be at least '' @ formatDuration m
              \<in> set (rv_errors (isRangeValid h r c)) \<and>
            (\<exists>pre post. ''Duration must be at least '' @ formatDuration m =
                          pre @ ''at least'' @ post))"
proof -
  let ?c' = "c\<lparr>minDuration := None\<rparr>"
  have compl: "completenessErrors r = []"
    using assms(8) by (auto simp: isRangeValid_def Let_def split: if_splits)
  then have ne: "st \<noteq> []" "et \<noteq> []"
    using assms(2,4) by (simp_all add: completenessErrors_empty truthy_string_def)
  have cs: "combineDateTime h sd (or_default (time (range_start r)) ''00:00'') = Some s"
    "combineDateTime h ed (or_default (time (range_end r)) ''00:00'') = Some e"
    using assms(2,4,5,6) ne by (simp_all add: or_default_def)
  note oe = orderErrors_eval [OF assms(1,3) cs]
  have v': "sideErrors h ''Start: '' (date (range_start r)) c = []"
    "sideErrors h ''End: '' (date (range_end r)) c = []"
    "orderErrors h r ?c' = []"
    using assms(8) isRangeValid_complete(2) [OF compl, of h ?c']
    by (simp_all add: sideErrors_minDuration_irrelevant)
  have lt: "s < e" and mx: "(case maxDuration c of
              Some m \<Rightarrow> (if m \<noteq> 0 \<and> m < e - s
                         then [''Duration must not exceed '' @ formatDuration m] else [])
            | None \<Rightarrow> []) = []"
    using v'(3) unfolding oe [of ?c'] by (simp_all split: if_splits)
  have oc: "orderErrors h r c =
      (if m \<noteq> 0 \<and> e - s < m then [''Duration must be at least '' @ formatDuration m] else [])"
    unfolding oe [of c] using lt mx assms(7) by simp
  have a: "e - s = m \<Longrightarrow> rv_valid (isRangeValid h r c)"
    using isRangeValid_complete(2) [OF compl, of h c] v'(1,2) oc by simp
  have b1: "e - s = m - 1 \<Longrightarrow> orderErrors h r c = [''Duration must be at least '' @ formatDuration m]"
    using oc lt by auto
  have b: "e - s = m - 1 \<Longrightarrow> \<not> rv_valid (isRangeValid h r c) \<and>
            ''Duration must be at least '' @ formatDuration m
              \<in> set (rv_errors (isRangeValid h r c))"
    using isRangeValid_complete [OF compl, of h c] v'(1,2) b1 by simp
  have c: "''Duration must be at least '' @ formatDuration m =
             ''Duration must be '' @ ''at least'' @ ('' '' @ formatDuration m)"
    by simp
  show ?thesis
    using a b c by blast
qed

lemma range_ex_valid:
  "rv_valid (isRangeValid (fixedHost 0)
     (mkRange 1736899200000 ''09:00'' 1736899200000 ''10:00'')
     (noConstraints\<lparr>minDuration := Some m, minDuration := None\<rparr>))"
  by (simp add: isRangeValid_def completenessErrors_def sideErrors_def isDateValid_def
      orderErrors_def truthy_string_def or_default_def mkRange_def noConstraints_def
      combine_ex2 combine_ex3)

text \<open>
  Claim C6, as amended. Take a complete range with well-formed times that is valid when
  the minimum duration is left out of the constraints, and a minimum duration \<open>m\<close>. The
  duration that is checked is the time between the instants that the host's zone
  assigns to the two combined civil values: if it is exactly \<open>m\<close> the range is valid, and
  if it is \<open>m - 1\<close> the range is invalid and its errors hold \<open>Duration must be at least\<close>
  followed by the formatted \<open>m\<close>, a message that contains \<open>at least\<close>. When the zone
  reads the two civil values with the same offset from UTC, as every zone of constant
  offset does, the same holds of the combined civil duration, end minus start.
\<close>

theorem minDuration_boundary_civil:
  assumes "range_start r = \<lparr>date = Some sd, time = Some st\<rparr>"
    and "range_end r = \<lparr>date = Some ed, time = Some et\<rparr>"
    and "spec_timeString st" and "spec_timeString et"
    and "minDuration c = Some m"
    and "rv_valid (isRangeValid h r (c\<lparr>minDuration := None\<rparr>))"
  shows "(UTC h (spec_civilDateTime h ed et) - UTC h (spec_civilDateTime h sd st) = m \<longrightarrow>
            rv_valid (isRangeValid h r c)) \<and>
         (UTC h (spec_civilDateTime h ed et) - UTC h (spec_civilDateTime h sd st) = m - 1 \<longrightarrow>
            \<not> rv_valid (isRangeValid h r c) \<and>
            ''Duration must be at least '' @ formatDuration m
              \<in> set (rv_errors (isRangeValid h r c)) \<and>
            (\<exists>pre post. ''Duration must be at least '' @ formatDuration m =
                          pre @ ''at least'' @ post)) \<and>
         (tza_local h (spec_civilDateTime h sd st) = tza_local h (spec_civilDateTime h ed et) \<longrightarrow>
            (spec_civilDateTime h ed et - spec_civilDateTime h sd st = m \<longrightarrow>
               rv_valid (isRangeValid h r c)) \<and>
            (spec_civilDateTime h ed et - spec_civilDateTime h sd st = m - 1 \<longrightarrow>
               \<not> rv_valid (isRangeValid h r c) \<and>
               ''Duration must be at least '' @ formatDuration m
                 \<in> set (rv_errors (isRangeValid h r c)) \<and>
               (\<exists>pre post. ''Duration must be at least '' @ formatDuration m =
                             pre @ ''at least'' @ post)))"
proof -
  have f: "date (range_start r) = Some sd" "time (range_start r) = Some st"
    "date (range_end r) = Some ed" "time (range_end r) = Some et"
    using assms(1,2) by simp_all
  note i = minDuration_boundary_instants [OF f
      spec_timeString_combine_civil [OF assms(3)] spec_timeString_combine_civil [OF assms(4)]
      assms(5,6)]
  have d: "UTC h (spec_civilDateTime h ed et) - UTC h (spec_civilDateTime h sd st) =
             spec_civilDateTime h ed et - spec_civilDateTime h sd st"
    if "tza_local h (spec_civilDateTime h sd st) = tza_local h (spec_civilDateTime h ed et)"
    using that by (simp add: UTC_def)
  show ?thesis
    using i d by metis
qed

theorem minDuration_boundary_civil_witness:
  "spec_timeString ''09:00'' \<and> spec_timeString ''10:00'' \<and>
   spec_civilDateTime (fixedHost 0) 1736899200000 ''10:00'' -
     spec_civilDateTime (fixedHost 0) 1736899200000 ''09:00'' = 3600000 \<and>
   rv_valid (isRangeValid (fixedHost 0)
     (mkRange 1736899200000 ''09:00'' 1736899200000 ''10:00'')
     (noConstraints\<lparr>minDuration := Some 3600000\<rparr>)) \<and>
   \<not> rv_valid (isRangeValid (fixedHost 0)
     (mkRange 1736899200000 ''09:00'' 1736899200000 ''10:00'')
     (noConstraints\<lparr>minDuration := Some 3600001\<rparr>)) \<and>
   ''Duration must be at least 1 hour'' \<in>
     set (rv_errors (isRangeValid (fixedHost 0)
       (mkRange 1736899200000 ''09:00'' 1736899200000 ''10:00'')
       (noConstraints\<lparr>minDuration := Some 3600001\<rparr>)))"
proof -
  let ?r = "mkRange 1736899200000 ''09:00'' 1736899200000 ''10:00''"
  have r: "range_start ?r = \<lparr>date = Some 1736899200000, time = Some ''09:00''\<rparr>"
    "range_end ?r = \<lparr>date = Some 1736899200000, time = Some ''10:00''\<rparr>"
    by (simp_all add: mkRange_def)
  have t: "spec_timeString ''09:00''" "spec_timeString ''10:00''"
    by (simp_all add: isDigit_def)
  have m1: "minDuration (noConstraints\<lparr>minDuration := Some 3600000\<rparr>) = Some 3600000"
    and m2: "minDuration (noConstraints\<lparr>minDuration := Some 3600001\<rparr>) = Some 3600001"
    by simp_all
  have v: "spec_civilDateTime (fixedHost 0) 1736899200000 ''09:00'' = 1736931600000"
    "spec_civilDateTime (fixedHost 0) 1736899200000 ''10:00'' = 1736935200000"
    by code_simp+
  have z: "tza_local (fixedHost 0) x = tza_local (fixedHost 0) y" for x y
    by (simp add: fixedHost_def)
  have f: "formatDuration 3600001 = ''1 hour''"
    by code_simp
  show ?thesis
    using minDuration_boundary_civil [OF r t m1 range_ex_valid]
      minDuration_boundary_civil [OF r t m2 range_ex_valid] t v z
    by (simp add: f)
qed

text \<open>
  Claim C6 as it is stated, on the combined civil duration, fails on a host in New York.
  From 01:00 to 04:00 on 2025-03-09 the civil duration is three hours, the minimum
  duration asked for; the clocks skip an hour in between, the two instants are two
  hours apart, and the range is refused as too short.
\<close>

theorem minDuration_spring_forward_counterexample:
  "spec_civilDateTime newYorkHost2025 1741496400000 ''04:00'' -
     spec_civilDateTime newYorkHost2025 1741496400000 ''01:00'' = 10800000 \<and>
   rv_valid (isRangeValid newYorkHost2025
               (mkRange 1741496400000 ''01:00'' 1741496400000 ''04:00'') noConstraints) \<and>
   isRangeValid newYorkHost2025
     (mkRange 1741496400000 ''01:00'' 1741496400000 ''04:00'')
     (noConstraints\<lparr>minDuration := Some 10800000\<rparr>) =
     \<lparr>rv_valid = False, rv_errors = [''Duration must be at least 3 hours'']\<rparr>"
  by code_simp

lemma sec_cascade:
  "(ms::int) div 1000 div 60 = ms div 60000"
  "(ms::int) div 60000 div 60 = ms div 3600000"
  "(ms::int) div 3600000 div 24 = ms div 86400000"
  using zdiv_zmult2_eq [of 60 ms 1000] zdiv_zmult2_eq [of 60 ms 60000]
    zdiv_zmult2_eq [of 24 ms 3600000]
  by simp_all

text \<open>
  Claim C7, as amended. For a duration of at least one second \<open>formatDuration\<close> reports
  one unit, the largest of days, hours, minutes and seconds whose floored magnitude is
  not zero, with an \<open>s\<close> exactly when the magnitude exceeds 1. Below one second (negative
  durations too) no such choice is made: the result is the floored number of seconds
  followed by \<open>second\<close>.
\<close>

theorem formatDuration_unit:
  "(1000 \<le> ms \<longrightarrow> spec_formatDuration ms = Some (formatDuration ms)) \<and>
   (ms < 1000 \<longrightarrow> formatDuration ms = show_int (ms div 1000) @ '' second'')"
proof -
  have a: "spec_formatDuration ms = Some (formatDuration ms)" if "1000 \<le> ms"
  proof -
    have p: "0 \<le> ms div 86400000" "0 \<le> ms div 3600000" "0 \<le> ms div 60000" "1 \<le> ms div 1000"
      using that int_div_bounds [of 86400000 ms] int_div_bounds [of 3600000 ms]
        int_div_bounds [of 60000 ms] int_div_bounds [of 1000 ms]
      by simp_all
    consider (d) "0 < ms div 86400000"
      | (h) "ms div 86400000 = 0" "0 < ms div 3600000"
      | (m) "ms div 86400000 = 0" "ms div 3600000 = 0" "0 < ms div 60000"
      | (s) "ms div 86400000 = 0" "ms div 3600000 = 0" "ms div 60000 = 0" "0 < ms div 1000"
      using p by linarith
    then show ?thesis
    proof cases
      case d
      then show ?thesis
        by (simp add: spec_formatDuration_def formatDuration_def spec_unitPhrase_def Let_def
            sec_cascade)
    next
      case h
      then show ?thesis
        by (simp add: spec_formatDuration_def formatDuration_def spec_unitPhrase_def Let_def
            sec_cascade)
    next
      case m
      then show ?thesis
        by (simp add: spec_formatDuration_def formatDuration_def spec_unitPhrase_def Let_def
            sec_cascade)
    next
      case s
      then show ?thesis
        by (simp add: spec_formatDuration_def formatDuration_def spec_unitPhrase_def Let_def
            sec_cascade)
    qed
  qed
  have b: "formatDuration ms = show_int (ms div 1000) @ '' second''" if "ms < 1000"
  proof -
    have s: "ms div 1000 \<le> 0"
      using that int_div_bounds [of 1000 ms] by simp
    have m: "ms div 60000 \<le> 0"
      using that int_div_bounds [of 60000 ms] by simp
    have h: "ms div 3600000 \<le> 0"
      using that int_div_bounds [of 3600000 ms] by simp
    have d: "ms div 86400000 \<le> 0"
      using that int_div_bounds [of 86400000 ms] by simp
    have "\<not> 0 < ms div 86400000" "\<not> 0 < ms div 3600000" "\<not> 0 < ms div 60000"
      "\<not> 1 < ms div 1000"
      using s m h d by simp_all
    then show ?thesis
      by (simp add: formatDuration_def Let_def sec_cascade)
  qed
  show ?thesis
    using a b by blast
qed

theorem formatDuration_unit_witness:
  "(1000::int) \<le> 7200000 \<and> spec_formatDuration 7200000 = Some ''2 hours'' \<and>
   formatDuration 7200000 = ''2 hours'' \<and>
   (500::int) < 1000 \<and> formatDuration 500 = ''0 second''"
proof -
  have "formatDuration 7200000 = ''2 hours''" by code_simp
  moreover have "show_int (500 div 1000) @ '' second'' = ''0 second''" by code_simp
  ultimately show ?thesis
    using formatDuration_unit [of 7200000] formatDuration_unit [of 500] by simp
qed

text \<open>
  Claim C7 as it is stated, for every duration, fails at 500 ms: every magnitude is zero
  there, so there is no unit to report under the policy, and \<open>formatDuration\<close> reports
  seconds all the same.
\<close>

theorem formatDuration_subsecond_counterexample:
  "formatDuration 500 = ''0 second'' \<and> spec_formatDuration 500 = None \<and>
   spec_formatDuration 500 \<noteq> Some (formatDuration 500)"
  by code_simp

lemma isSameDay_iff_Day:
  "isSameDay h d1 d2 \<longleftrightarrow> Day (LocalTime h d1) = Day (LocalTime h d2)"
proof
  assume "isSameDay h d1 d2"
  then have "MakeDay (YearFromTime (LocalTime h d1)) (MonthFromTime (LocalTime h d1))
               (DateFromTime (LocalTime h d1)) =
             MakeDay (YearFromTime (LocalTime h d2)) (MonthFromTime (LocalTime h d2))
               (DateFromTime (LocalTime h d2))"
    by (simp add: isSameDay_def getFullYear_def getMonth_def getDate_def)
  then show "Day (LocalTime h d1) = Day (LocalTime h d2)"
    by (simp only: MakeDay_roundtrip)
next
  assume "Day (LocalTime h d1) = Day (LocalTime h d2)"
  then show "isSameDay h d1 d2"
    by (simp add: isSameDay_def getFullYear_def getMonth_def getDate_def YearFromTime_def
        MonthFromTime_def DateFromTime_def DayWithinYear_def InLeapYear_def)
qed

text \<open>
  Claim C9. \<open>isDateValid\<close> compares the candidate with \<open>minDate\<close> and \<open>maxDate\<close> as
  instants, time of day included: a candidate before \<open>minDate\<close> is rejected as before the
  minimum, also on the calendar day of \<open>minDate\<close>, and one after \<open>maxDate\<close> as after the
  maximum. The blackout check goes by \<open>isSameDay\<close>, which holds exactly when the two dates
  fall on the same local calendar day: a candidate that passes the bounds is rejected as
  not available exactly when a blackout date is on its calendar day.
\<close>

theorem isDateValid_instant_vs_day:
  "(minDate c = Some m \<and> d < m \<longrightarrow>
      isDateValid h d c =
        \<lparr>dv_valid = False, dv_error = Some ''Date is before minimum allowed''\<rparr>) \<and>
   ((\<forall>m. minDate c = Some m \<longrightarrow> m \<le> d) \<and> maxDate c = Some M \<and> M < d \<longrightarrow>
      isDateValid h d c =
        \<lparr>dv_valid = False, dv_error = Some ''Date is after maximum allowed''\<rparr>) \<and>
   (isSameDay h d1 d2 \<longleftrightarrow> Day (LocalTime h d1) = Day (LocalTime h d2)) \<and>
   ((\<forall>m. minDate c = Some m \<longrightarrow> m \<le> d) \<and> (\<forall>M. maxDate c = Some M \<longrightarrow> d \<le> M) \<and>
    blackoutDates c = Some bds \<longrightarrow>
      (dv_error (isDateValid h d c) = Some ''This date is not available'' \<longleftrightarrow>
       (\<exists>bd \<in> set bds. Day (LocalTime h bd) = Day (LocalTime h d))))"
proof -
  have a: "minDate c = Some m \<and> d < m \<longrightarrow>
      isDateValid h d c =
        \<lparr>dv_valid = False, dv_error = Some ''Date is before minimum allowed''\<rparr>"
    by (simp add: isDateValid_def)
  have b: "(\<forall>m. minDate c = Some m \<longrightarrow> m \<le> d) \<and> maxDate c = Some M \<and> M < d \<longrightarrow>
      isDateValid h d c =
        \<lparr>dv_valid = False, dv_error = Some ''Date is after maximum allowed''\<rparr>"
    by (auto simp: isDateValid_def split: option.splits)
  have c: "(\<forall>m. minDate c = Some m \<longrightarrow> m \<le> d) \<and> (\<forall>M. maxDate c = Some M \<longrightarrow> d \<le> M) \<and>
    blackoutDates c = Some bds \<longrightarrow>
      (dv_error (isDateValid h d c) = Some ''This date is not available'' \<longleftrightarrow>
       (\<exists>bd \<in> set bds. Day (LocalTime h bd) = Day (LocalTime h d)))"
  proof (intro impI)
    assume as: "(\<forall>m. minDate c = Some m \<longrightarrow> m \<le> d) \<and> (\<forall>M. maxDate c = Some M \<longrightarrow> d \<le> M) \<and>
      blackoutDates c = Some bds"
    have n1: "\<not> (case minDate c of Some m \<Rightarrow> d < m | None \<Rightarrow> False)"
      using as by (cases "minDate c") auto
    have n2: "\<not> (case maxDate c of Some m \<Rightarrow> d > m | None \<Rightarrow> False)"
      using as by (cases "maxDate c") auto
    have ex: "list_ex (\<lambda>bd. isSameDay h bd d) bds \<longleftrightarrow>
        (\<exists>bd \<in> set bds. Day (LocalTime h bd) = Day (LocalTime h d))"
      by (simp add: list_ex_iff isSameDay_iff_Day)
    show "dv_error (isDateValid h d c) = Some ''This date is not available'' \<longleftrightarrow>
       (\<exists>bd \<in> set bds. Day (LocalTime h bd) = Day (LocalTime h d))"
      unfolding ex [symmetric] using n1 n2 as by (simp add: isDateValid_def)
  qed
  show ?thesis
    using a b c isSameDay_iff_Day by blast
qed

theorem isDateValid_instant_vs_day_witness:
  "isSameDay (fixedHost 0) 1736931600000 1736942400000 \<and>
   isDateValid (fixedHost 0) 1736931600000 (noConstraints\<lparr>minDate := Some 1736942400000\<rparr>) =
     \<lparr>dv_valid = False, dv_error = Some ''Date is before minimum allowed''\<rparr> \<and>
   isDateValid (fixedHost 0) 1736953200000 (noConstraints\<lparr>maxDate := Some 1736942400000\<rparr>) =
     \<lparr>dv_valid = False, dv_error = Some ''Date is after maximum allowed''\<rparr> \<and>
   dv_error (isDateValid (fixedHost 0) 1736931600000
               (noConstraints\<lparr>blackoutDates := Some [1736942400000]\<rparr>)) =
     Some ''This date is not available''"
proof -
  have d: "Day (LocalTime (fixedHost 0) 1736931600000) = Day (LocalTime (fixedHost 0) 1736942400000)"
    by (simp add: Day_def LocalTime_def fixedHost_def msPerDay_def)
  show ?thesis
    using d
      isDateValid_instant_vs_day [of "noConstraints\<lparr>minDate := Some 1736942400000\<rparr>"
        1736942400000 1736931600000 "fixedHost 0" 0 1736931600000 1736942400000 "[]"]
      isDateValid_instant_vs_day [of "noConstraints\<lparr>maxDate := Some 1736942400000\<rparr>"
        0 1736953200000 "fixedHost 0" 1736942400000 0 0 "[]"]
      isDateValid_instant_vs_day [of "noConstraints\<lparr>blackoutDates := Some [1736942400000]\<rparr>"
        0 1736931600000 "fixedHost 0" 0 0 0 "[1736942400000]"]
    by (simp add: noConstraints_def)
qed

section \<open>Calendar days: getDateRange and the presets\<close>

lemma fixedHost_simps:
  "LocalTime (fixedHost k) t = t + k" "UTC (fixedHost k) t = t - k"
  by (simp_all add: LocalTime_def UTC_def fixedHost_def)

lemma Day_MakeDate:
  assumes "0 \<le> tm" "tm < msPerDay"
  shows "Day (MakeDate d tm) = d" "TimeWithinDay (MakeDate d tm) = tm"
proof -
  have p: "0 < msPerDay" by (simp add: msPerDay_def)
  show "Day (MakeDate d tm) = d"
    using assms p unfolding Day_def MakeDate_def
    by (simp add: div_pos_pos_trivial)
  show "TimeWithinDay (MakeDate d tm) = tm"
    using assms p unfolding TimeWithinDay_def MakeDate_def
    by (simp add: mod_pos_pos_trivial)
qed

lemma TimeWithinDay_range: "0 \<le> TimeWithinDay t \<and> TimeWithinDay t < msPerDay"
  by (simp add: TimeWithinDay_def msPerDay_def)

lemma localTimeExists_fixedHost: "localTimeExists (fixedHost k) x"
  by (simp add: localTimeExists_def fixedHost_simps)


lemma MakeDay_add: "MakeDay y m (dt + n) = MakeDay y m dt + n"
  by (simp add: MakeDay_def Let_def)

lemma MakeTime_zero: "MakeTime 0 0 0 0 = 0"
  by (simp add: MakeTime_def)

lemma setDate_relative:
  "setDate h d (getDate h d + n) =
     UTC h (MakeDate (Day (LocalTime h d) + n) (TimeWithinDay (LocalTime h d)))"
  by (simp add: setDate_def getDate_def Let_def MakeDay_add MakeDay_roundtrip)





text \<open>
  Claim C8, as amended. For every instant \<open>now\<close> read from the clock, on a host whose
  zone shows the end of today and the midnight of the day six days before today, and
  reads the time of day of \<open>now\<close> on that earlier day as a time of that same day (a zone
  of constant offset does all three, for every \<open>now\<close>), the range of \<open>Last 7 Days\<close> starts
  on the local calendar day six days before the day of \<open>now\<close>, at 00:00:00.000, and ends
  on the day of \<open>now\<close> at 23:59:59.999, seven calendar days in all; its time strings are
  \<open>00:00\<close> and \<open>23:59\<close>. With \<open>now\<close> on 2025-06-10, on a host at UTC, the range runs from
  2025-06-04T00:00:00.000 to 2025-06-10T23:59:59.999, as the witness evaluates it.
\<close>

theorem last7days_range:
  assumes "localTimeExists h (MakeDate (Day (LocalTime h now)) (MakeTime 23 59 59 999))"
    and "Day (LocalTime h (UTC h (MakeDate (Day (LocalTime h now) - 6)
                                    (TimeWithinDay (LocalTime h now))))) =
         Day (LocalTime h now) - 6"
    and "localTimeExists h (MakeDate (Day (LocalTime h now) - 6) (MakeTime 0 0 0 0))"
  shows "Day (LocalTime h (pr_start (last7days_getRange h now))) = Day (LocalTime h now) - 6 \<and>
         TimeWithinDay (LocalTime h (pr_start (last7days_getRange h now))) = MakeTime 0 0 0 0 \<and>
         pr_startTime (last7days_getRange h now) = ''00:00'' \<and>
         Day (LocalTime h (pr_end (last7days_getRange h now))) = Day (LocalTime h now) \<and>
         TimeWithinDay (LocalTime h (pr_end (last7days_getRange h now))) =
           MakeTime 23 59 59 999 \<and>
         pr_endTime (last7days_getRange h now) = ''23:59'' \<and>
         Day (LocalTime h (pr_end (last7days_getRange h now))) -
           Day (LocalTime h (pr_start (last7days_getRange h now))) + 1 = 7"
proof -
  let ?today = "Day (LocalTime h now)"
  have s0: "setDate h now (getDate h now - 6) =
              UTC h (MakeDate (?today - 6) (TimeWithinDay (LocalTime h now)))"
    using setDate_relative [of h now "- 6"] by simp
  have d0: "Day (LocalTime h (setDate h now (getDate h now - 6))) = ?today - 6"
    using assms(2) by (simp add: s0)
  have r: "last7days_getRange h now =
      \<lparr>pr_start = UTC h (MakeDate (?today - 6) (MakeTime 0 0 0 0)), pr_startTime = ''00:00'',
       pr_end = UTC h (MakeDate ?today (MakeTime 23 59 59 999)), pr_endTime = ''23:59''\<rparr>"
    by (simp add: last7days_getRange_def Let_def setHours_def d0)
  have t: "0 \<le> MakeTime 0 0 0 0" "MakeTime 0 0 0 0 < msPerDay"
    "0 \<le> MakeTime 23 59 59 999" "MakeTime 23 59 59 999 < msPerDay"
    by (simp_all add: es_time_defs)
  have l: "LocalTime h (UTC h (MakeDate (?today - 6) (MakeTime 0 0 0 0))) =
             MakeDate (?today - 6) (MakeTime 0 0 0 0)"
    "LocalTime h (UTC h (MakeDate ?today (MakeTime 23 59 59 999))) =
             MakeDate ?today (MakeTime 23 59 59 999)"
    using assms(1,3) by (simp_all add: localTimeExists_def)
  show ?thesis
    unfolding r using t by (simp add: l Day_MakeDate)
qed

lemma same_day_fixedHost:
  "Day (LocalTime (fixedHost k) (UTC (fixedHost k) (MakeDate d (TimeWithinDay t)))) = d"
  using TimeWithinDay_range [of t] by (simp add: fixedHost_simps Day_MakeDate)

text \<open>
  The witness: \<open>now\<close> on 2025-06-10 on a host at UTC, and \<open>now\<close> at 02:30 on 2025-03-15
  on the host in New York, where 02:30 six days earlier is a skipped local time and is
  read as 03:30 of the same day.
\<close>

theorem last7days_range_witness:
  "last7days_getRange (fixedHost 0) (MakeDate (MakeDay 2025 5 10) (MakeTime 12 34 56 789)) =
     \<lparr>pr_start = MakeDate (MakeDay 2025 5 4) (MakeTime 0 0 0 0), pr_startTime = ''00:00'',
      pr_end = MakeDate (MakeDay 2025 5 10) (MakeTime 23 59 59 999), pr_endTime = ''23:59''\<rparr> \<and>
   Day (LocalTime (fixedHost 0)
          (pr_end (last7days_getRange (fixedHost 0)
                     (MakeDate (MakeDay 2025 5 10) (MakeTime 12 34 56 789))))) -
   Day (LocalTime (fixedHost 0)
          (pr_start (last7days_getRange (fixedHost 0)
                       (MakeDate (MakeDay 2025 5 10) (MakeTime 12 34 56 789))))) + 1 = 7 \<and>
   \<not> localTimeExists newYorkHost2025
        (MakeDate (Day (LocalTime newYorkHost2025 1742020200000) - 6)
           (TimeWithinDay (LocalTime newYorkHost2025 1742020200000))) \<and>
   TimeWithinDay (LocalTime newYorkHost2025
                    (pr_start (last7days_getRange newYorkHost2025 1742020200000))) =
     MakeTime 0 0 0 0 \<and>
   Day (LocalTime newYorkHost2025 (pr_start (last7days_getRange newYorkHost2025 1742020200000))) =
     Day (LocalTime newYorkHost2025 1742020200000) - 6"
proof -
  have c: "last7days_getRange (fixedHost 0) (MakeDate (MakeDay 2025 5 10) (MakeTime 12 34 56 789)) =
     \<lparr>pr_start = MakeDate (MakeDay 2025 5 4) (MakeTime 0 0 0 0), pr_startTime = ''00:00'',
      pr_end = MakeDate (MakeDay 2025 5 10) (MakeTime 23 59 59 999), pr_endTime = ''23:59''\<rparr>"
    by code_simp
  have n1: "localTimeExists newYorkHost2025
              (MakeDate (Day (LocalTime newYorkHost2025 1742020200000)) (MakeTime 23 59 59 999))"
    by code_simp
  have n2: "Day (LocalTime newYorkHost2025
                   (UTC newYorkHost2025
                      (MakeDate (Day (LocalTime newYorkHost2025 1742020200000) - 6)
                         (TimeWithinDay (LocalTime newYorkHost2025 1742020200000))))) =
            Day (LocalTime newYorkHost2025 1742020200000) - 6"
    by code_simp
  have n3: "localTimeExists newYorkHost2025
              (MakeDate (Day (LocalTime newYorkHost2025 1742020200000) - 6) (MakeTime 0 0 0 0))"
    by code_simp
  have n4: "\<not> localTimeExists newYorkHost2025
        (MakeDate (Day (LocalTime newYorkHost2025 1742020200000) - 6)
           (TimeWithinDay (LocalTime newYorkHost2025 1742020200000)))"
    by code_simp
  show ?thesis
    using last7days_range [OF localTimeExists_fixedHost same_day_fixedHost
        localTimeExists_fixedHost, of 0 "MakeDate (MakeDay 2025 5 10) (MakeTime 12 34 56 789)"]
      last7days_range [OF n1 n2 n3] c n4
    by simp
qed

text \<open>
  Claim C8 as it is stated, for every \<open>now\<close>, fails on the host in Cairo. With \<open>now\<close> at
  12:00 local time on 2025-05-01 the start falls on 2025-04-25, a day without a
  midnight, and the start of the range is 01:00:00 of that day, not 00:00:00.000.
\<close>

theorem last7days_cairo_counterexample:
  "LocalTime cairoHost2025 1746090000000 = MakeDate (MakeDay 2025 4 1) (MakeTime 12 0 0 0) \<and>
   LocalTime cairoHost2025 (pr_start (last7days_getRange cairoHost2025 1746090000000)) =
     MakeDate (MakeDay 2025 3 25) (MakeTime 1 0 0 0) \<and>
   TimeWithinDay (LocalTime cairoHost2025
                    (pr_start (last7days_getRange cairoHost2025 1746090000000))) \<noteq>
     MakeTime 0 0 0 0"
  by code_simp

text \<open>
  On a host of constant offset the two local midnights are a whole number of days apart,
  and \<open>daysBetween\<close> is the distance of the two calendar days.
\<close>

lemma setHours_fixed:
  "setHours (fixedHost k) d hh mm ss milli = MakeDate (Day (d + k)) (MakeTime hh mm ss milli) - k"
  by (simp add: setHours_def fixedHost_simps)

lemma daysBetween_fixed: "daysBetween (fixedHost k) s e = \<bar>Day (e + k) - Day (s + k)\<bar>"
proof -
  have "MakeDate (Day (e + k)) 0 - k - (MakeDate (Day (s + k)) 0 - k) =
          (Day (e + k) - Day (s + k)) * 86400000"
    by (simp add: MakeDate_def msPerDay_def algebra_simps)
  then show ?thesis
    by (simp add: daysBetween_def Let_def setHours_fixed MakeTime_zero abs_mult)
qed

section \<open>The round trip through civil time\<close>

lemma digit_cases: "n < 10 \<Longrightarrow> n \<in> {0, 1, 2, 3, 4, 5, 6, 7, 8, 9::nat}"
  by auto

lemma digit_char_isDigit: "n < 10 \<Longrightarrow> isDigit (digit_char n)"
  using digit_cases [of n] by (auto simp: digit_char_def isDigit_def)

lemma digit_val_digit_char: "n < 10 \<Longrightarrow> digit_val (digit_char n) = n"
  using digit_cases [of n] by (auto simp: digit_char_def digit_val_def)

lemma show_nat_digits: "\<forall>c \<in> set (show_nat n). isDigit c"
proof (induction n rule: show_nat.induct)
  case (1 n)
  show ?case
  proof (cases "n < 10")
    case True
    then show ?thesis
      by (simp add: show_nat.simps [of n] digit_char_isDigit)
  next
    case False
    then show ?thesis
      using 1 by (simp add: show_nat.simps [of n] digit_char_isDigit)
  qed
qed

lemma show_nat_nonempty: "show_nat n \<noteq> []"
  by (simp add: show_nat.simps [of n])

lemma parse_digits_snoc: "parse_digits (xs @ [c]) = 10 * parse_digits xs + digit_val c"
  by (simp add: parse_digits_def)

lemma parse_digits_show_nat: "parse_digits (show_nat n) = n"
proof (induction n rule: show_nat.induct)
  case (1 n)
  show ?case
  proof (cases "n < 10")
    case True
    then show ?thesis
      by (simp add: show_nat.simps [of n] parse_digits_def digit_val_digit_char)
  next
    case False
    then have "parse_digits (show_nat (n div 10)) = n div 10"
      using 1 by simp
    then show ?thesis
      using False by (simp add: show_nat.simps [of n] parse_digits_snoc digit_val_digit_char)
  qed
qed

lemma parseInt_digits_show_nat: "parseInt_digits (show_nat n) = Some (int n)"
proof -
  have tw: "takeWhile isDigit (show_nat n) = show_nat n"
    using show_nat_digits by (simp add: takeWhile_eq_all_conv)
  show ?thesis
    unfolding parseInt_digits_def tw Let_def
    by (simp add: show_nat_nonempty parse_digits_show_nat)
qed

lemma gmtOffset_whole_hours:
  "(case gmtOffsetMatch (shortOffset (60 * q)) of
      Some cap \<Rightarrow> (case parseInt cap of Some n \<Rightarrow> n * 60 | None \<Rightarrow> 0)
    | None \<Rightarrow> 0) = 60 * q"
proof -
  have tw: "takeWhile isDigit (show_nat n) = show_nat n" for n
    using show_nat_digits by (simp add: takeWhile_eq_all_conv)
  have ab: "\<bar>60 * q\<bar> div 60 = \<bar>q\<bar>" "\<bar>60 * q\<bar> mod 60 = 0"
    by (simp_all add: abs_mult)
  consider (z) "q = 0" | (p) "0 < q" | (n) "q < 0" by linarith
  then show ?thesis
  proof cases
    case z
    then show ?thesis by (simp add: shortOffset_def)
  next
    case p
    then have "shortOffset (60 * q) = ''GMT+'' @ show_nat (nat q)"
      unfolding shortOffset_def ab by simp
    then show ?thesis
      using p by (simp add: tw show_nat_nonempty parseInt_digits_show_nat)
  next
    case n
    then have "shortOffset (60 * q) = ''GMT-'' @ show_nat (nat (- q))"
      unfolding shortOffset_def ab by simp
    then show ?thesis
      using n by (simp add: tw show_nat_nonempty parseInt_digits_show_nat)
  qed
qed

lemma time_fields:
  "MakeDate (Day t) (MakeTime (HourFromTime t) (MinFromTime t) (SecFromTime t) (t mod 1000)) = t"
proof -
  define a where "a = t div 1000"
  define b where "b = t div 60000"
  define c where "c = t div 3600000"
  define d where "d = t div 86400000"
  have "a mod 60 = a - 60 * b" "b mod 60 = b - 60 * c" "c mod 24 = c - 24 * d"
    "t mod 1000 = t - 1000 * a"
    unfolding a_def b_def c_def d_def sec_cascade [symmetric]
    by (simp_all add: minus_mult_div_eq_mod)
  then show ?thesis
    unfolding MakeDate_def MakeTime_def Day_def HourFromTime_def MinFromTime_def SecFromTime_def
      msPerDay_def msPerHour_def msPerMinute_def msPerSecond_def
      a_def [symmetric] b_def [symmetric] c_def [symmetric] d_def [symmetric]
    by simp
qed

text \<open>
  Where the round trip does come back to the instant: on a host whose local zone is
  UTC, for an instant on a whole second and a zone whose offset is the same whole number
  of hours at the instant and at the nominal instant (the civil fields read as UTC),
  with a civil year of at least 100.
\<close>

lemma roundTrip_whole_hours:
  assumes "db z = Some zd" and "t mod 1000 = 0"
    and "zd_offset zd t = 60 * q" and "zd_offset zd (t + q * msPerHour) = 60 * q"
    and "100 \<le> YearFromTime (t + q * msPerHour)"
  shows "roundTrip db (fixedHost 0) t z = Inr t"
proof -
  let ?tl = "t + q * msPerHour"
  have tl: "t + zd_offset zd t * msPerMinute = ?tl"
    by (simp add: assms(3) msPerMinute_def msPerHour_def)
  have "(t + q * 3600 * 1000) mod 1000 = (t mod 1000 + (q * 3600 * 1000) mod 1000) mod 1000"
    by (rule mod_add_eq [symmetric])
  then have ms: "?tl mod 1000 = 0"
    using assms(2) by (simp add: msPerHour_def mult.commute)
  have nd: "newDate (fixedHost 0) (YearFromTime ?tl) (MonthFromTime ?tl + 1 - 1) (DateFromTime ?tl)
              (HourFromTime ?tl) (MinFromTime ?tl) (SecFromTime ?tl) = ?tl"
    using assms(5) time_fields [of ?tl] ms
    by (simp add: newDate_def Let_def MakeDay_roundtrip UTC_def fixedHost_def)
  have u: "utcToTimezone db (fixedHost 0) t z = Inr ?tl"
    using assms(5) nd by (simp add: utcToTimezone_def assms(1) formatToParts_def Let_def tl)
  have a4: "zd_offset zd (t + q * 3600000) = 60 * q"
    using assms(4) by (simp add: msPerHour_def)
  have v: "timezoneToUtc db ?tl z = Inr t"
    by (simp add: timezoneToUtc_def assms(1) a4 Let_def gmtOffset_whole_hours msPerHour_def)
  show ?thesis
    by (simp add: roundTrip_def u v)
qed


lemma roundTrip_new_york_winter:
  "sampleZones ''America/New_York'' = Some newYork2025 \<and> (1736942400000::int) mod 1000 = 0 \<and>
   zd_offset newYork2025 1736942400000 = 60 * (- 5) \<and>
   zd_offset newYork2025 (1736942400000 + (- 5) * msPerHour) = 60 * (- 5) \<and>
   100 \<le> YearFromTime (1736942400000 + (- 5) * msPerHour) \<and>
   roundTrip sampleZones (fixedHost 0) 1736942400000 ''America/New_York'' = Inr 1736942400000"
proof -
  have h1: "sampleZones ''America/New_York'' = Some newYork2025"
    by (simp add: sampleZones_def)
  have h2: "(1736942400000::int) mod 1000 = 0"
    by simp
  have h3: "zd_offset newYork2025 1736942400000 = 60 * (- 5)"
    and h4: "zd_offset newYork2025 (1736942400000 + (- 5) * msPerHour) = 60 * (- 5)"
    by (simp_all add: newYork2025_def msPerHour_def)
  have h5: "100 \<le> YearFromTime (1736942400000 + (- 5) * msPerHour)"
    by code_simp
  show ?thesis
    using roundTrip_whole_hours [where db = sampleZones and z = "''America/New_York''"
        and zd = newYork2025 and t = 1736942400000 and q = "- 5"] h1 h2 h3 h4 h5
    by simp
qed

text \<open>
  Claim C1. The round trip is to give the instant back for every zone of the catalog,
  away from the transitions of the zone. Kolkata is in the catalog and keeps +5:30 all
  year, so that no instant is near a transition. \<open>timezoneToUtc\<close> reads the offset back
  from the name \<open>GMT+5:30\<close> with a pattern that takes the hour digits only, 5 hours, and
  on a host at UTC the round trip of 2025-01-15T12:00:00Z ends half an hour late, at
  12:30:00Z.
\<close>

theorem roundTrip_kolkata_half_hour:
  "''Asia/Kolkata'' \<in> set getAllTimezones \<and>
   roundTrip sampleZones (fixedHost 0) 1736942400000 ''Asia/Kolkata'' = Inr 1736944200000 \<and>
   roundTrip sampleZones (fixedHost 0) 1736942400000 ''Asia/Kolkata'' \<noteq> Inr 1736942400000"
  by code_simp

text \<open>
  The round trip is lost in other ways too. The civil value has no milliseconds; on a
  host one hour ahead of UTC the result is one hour off, since the civil value is built
  as local time and read back as an instant; and \<open>new Date\<close> takes the civil year 50 for
  1950.
\<close>

lemma roundTrip_drops_milliseconds:
  "roundTrip sampleZones (fixedHost 0) 1736942400500 ''UTC'' = Inr 1736942400000"
  by code_simp

lemma roundTrip_host_offset:
  "roundTrip sampleZones (fixedHost 3600000) 1736942400000 ''UTC'' = Inr 1736938800000"
  by code_simp

lemma roundTrip_two_digit_year:
  "roundTrip sampleZones (fixedHost 0) (MakeDate (MakeDay 50 0 15) (MakeTime 12 0 0 0)) ''UTC'' =
     Inr (MakeDate (MakeDay 1950 0 15) (MakeTime 12 0 0 0))"
  by code_simp

section \<open>The offset of a zone\<close>

lemma minutes_of_day: "HourFromTime t * 60 + MinFromTime t = (t div 60000) mod 1440"
proof -
  define b where "b = t div 60000"
  have "b mod 1440 = 60 * ((b div 60) mod 24) + b mod 60"
    using zmod_zmult2_eq [of 24 b 60] by simp
  then show ?thesis
    unfolding HourFromTime_def MinFromTime_def msPerHour_def msPerMinute_def
      sec_cascade(2) [symmetric] b_def [symmetric]
    by simp
qed

text \<open>
  What \<open>getOffsetMinutes\<close> computes: the zone's offset, less a whole day for every
  calendar day by which the zone's wall clock is ahead of the wall clock of UTC. The
  code has no adjustment for that term.
\<close>

lemma getOffsetMinutes_formula:
  assumes "db z = Some zd"
  shows "getOffsetMinutes db t z =
           Inr (zd_offset zd t - 1440 * (Day (t + zd_offset zd t * msPerMinute) - Day t))"
proof -
  define b where "b = t div 60000"
  define off where "off = zd_offset zd t"
  have d: "(t + off * 60000) div 60000 = b + off"
    unfolding b_def by simp
  have day: "Day t = b div 1440" "Day (t + off * msPerMinute) = (b + off) div 1440"
    using zdiv_zmult2_eq [of 1440 t 60000] zdiv_zmult2_eq [of 1440 "t + off * 60000" 60000] d
    unfolding b_def Day_def msPerDay_def msPerMinute_def by simp_all
  have ar: "(b + off) mod 1440 - b mod 1440 = off - 1440 * ((b + off) div 1440 - b div 1440)"
    using minus_mult_div_eq_mod [of "b + off" 1440] minus_mult_div_eq_mod [of b 1440]
    by (simp add: algebra_simps)
  have m1: "HourFromTime t * 60 + MinFromTime t = b mod 1440"
    using minutes_of_day [of t] by (simp add: b_def)
  have m2: "HourFromTime (t + off * 60000) * 60 + MinFromTime (t + off * 60000) =
              (b + off) mod 1440"
    using minutes_of_day [of "t + off * 60000"] d by simp
  have g: "getOffsetMinutes db t z = Inr ((b + off) mod 1440 - b mod 1440)"
    by (simp add: getOffsetMinutes_def assms formatToParts_def utcZone_def Let_def
        msPerMinute_def off_def [symmetric] m1 m2)
  show ?thesis
    unfolding g ar off_def [symmetric] day ..
qed

text \<open>
  Claim C2. At 2025-01-15T02:00:00Z New York is at 21:00 of the day before and its offset
  is -300 minutes; \<open>getOffsetMinutes\<close> returns 1260 - 120 = 1140. At 12:00:00Z of the
  same day, where both wall clocks show the same calendar day, it returns -300.
\<close>

theorem getOffsetMinutes_day_rollover:
  "getOffsetMinutes sampleZones 1736906400000 ''America/New_York'' = Inr 1140 \<and>
   zd_offset newYork2025 1736906400000 = - 300 \<and>
   getOffsetMinutes sampleZones 1736942400000 ''America/New_York'' = Inr (- 300)"
  by code_simp

section \<open>Zone identifiers outside the catalog\<close>

text \<open>
  Claim C3, as amended. No operation consults the catalog of \<open>getAllTimezones\<close>. For a zone
  identifier the platform's zone data does not know, \<open>getOffsetMinutes\<close>, \<open>timezoneToUtc\<close>,
  \<open>utcToTimezone\<close> and \<open>getTimezoneInfo\<close> each fail with the platform's \<open>RangeError\<close>; for
  every identifier it knows, in the catalog or not, each returns a value.
\<close>

theorem zone_lookup_platform_only:
  "(db z = None \<longrightarrow>
      getOffsetMinutes db t z = Inl RangeError \<and> timezoneToUtc db t z = Inl RangeError \<and>
      utcToTimezone db h t z = Inl RangeError \<and> getTimezoneInfo db h t z = Inl RangeError) \<and>
   (db z \<noteq> None \<longrightarrow>
      (\<exists>a b c d. getOffsetMinutes db t z = Inr a \<and> timezoneToUtc db t z = Inr b \<and>
         utcToTimezone db h t z = Inr c \<and> getTimezoneInfo db h t z = Inr d))"
proof (intro conjI impI)
  assume n: "db z \<noteq> None"
  then obtain zd where zd: "db z = Some zd" by blast
  have o: "\<exists>a. getOffsetMinutes db u z = Inr a" for u
    by (simp add: getOffsetMinutes_def zd Let_def)
  obtain o1 where o1: "getOffsetMinutes db t z = Inr o1"
    using o by blast
  obtain o2 where o2: "getOffsetMinutes db (setMonth h t (getMonth h t + 6)) z = Inr o2"
    using o by blast
  have i: "isDaylightSavings db h t z = Inr (o1 > o2)"
    by (simp add: isDaylightSavings_def Let_def o1 o2)
  show "\<exists>a b c d. getOffsetMinutes db t z = Inr a \<and> timezoneToUtc db t z = Inr b \<and>
         utcToTimezone db h t z = Inr c \<and> getTimezoneInfo db h t z = Inr d"
    by (simp add: o1 timezoneToUtc_def utcToTimezone_def getTimezoneInfo_def zd Let_def i)
qed (simp_all add: getOffsetMinutes_def timezoneToUtc_def utcToTimezone_def getTimezoneInfo_def)

theorem zone_lookup_platform_only_witness:
  "sampleZones ''Mars/Olympus_Mons'' = None \<and>
   getOffsetMinutes sampleZones 1736942400000 ''Mars/Olympus_Mons'' = Inl RangeError \<and>
   getTimezoneInfo sampleZones (fixedHost 0) 1736942400000 ''Mars/Olympus_Mons'' = Inl RangeError \<and>
   sampleZones ''Africa/Nairobi'' \<noteq> None \<and>
   (\<exists>a. getOffsetMinutes sampleZones 1736942400000 ''Africa/Nairobi'' = Inr a) \<and>
   (\<exists>d. getTimezoneInfo sampleZones (fixedHost 0) 1736942400000 ''Africa/Nairobi'' = Inr d)"
proof -
  have n: "sampleZones ''Mars/Olympus_Mons'' = None" "sampleZones ''Africa/Nairobi'' \<noteq> None"
    by (simp_all add: sampleZones_def)
  show ?thesis
    using zone_lookup_platform_only [of sampleZones "''Mars/Olympus_Mons''" 1736942400000
        "fixedHost 0"]
      zone_lookup_platform_only [of sampleZones "''Africa/Nairobi''" 1736942400000 "fixedHost 0"] n
    by blast
qed

text \<open>
  Claim C3 as it is stated fails for a zone the platform knows and the catalog does not.
  Nairobi is not in the catalog; the platform knows it, and every operation answers for
  it: the offset is 180 minutes, 12:00:00Z is 15:00:00 there, and no error is raised.
\<close>

theorem uncataloged_zone_counterexample:
  "''Africa/Nairobi'' \<notin> set getAllTimezones \<and>
   getOffsetMinutes sampleZones 1736942400000 ''Africa/Nairobi'' = Inr 180 \<and>
   utcToTimezone sampleZones (fixedHost 0) 1736942400000 ''Africa/Nairobi'' = Inr 1736953200000 \<and>
   timezoneToUtc sampleZones 1736953200000 ''Africa/Nairobi'' = Inr 1736942400000 \<and>
   getTimezoneInfo sampleZones (fixedHost 0) 1736942400000 ''Africa/Nairobi'' =
     Inr \<lparr>ti_name = ''Africa/Nairobi'', ti_offset = - 180, ti_abbreviation = ''East'',
          ti_isDST = False\<rparr>"
  by code_simp

end
